theory Spec2Isabelle
  imports Main "HOL-Library.Mapping" "HOL-Library.AList_Mapping"
begin

section \<open>Exceptions and call results\<close>

text \<open>
  Every failure of the library is a \<^verbatim>\<open>std::invalid_argument\<close>; the constructors below
  stand for its five messages:
  \<^item> \<open>DuplicateVertex\<close>: "Vertex is already in graph."
  \<^item> \<open>UnknownVertex\<close>: "Vertex not in graph."
  \<^item> \<open>EdgeDoesNotExist\<close>: "Edge does not exist." (thrown by \<^verbatim>\<open>get_edge_weight\<close>)
  \<^item> \<open>EdgeNotFound\<close>: "Attempting to remove edge that doesn't exist."
  \<^item> \<open>EdgeAlreadyExists\<close>: "Edge already exists."

  \<open>OutOfRange\<close> is no exception: it marks a call that leaves defined C++ behaviour, by
  indexing or erasing a \<^verbatim>\<open>std::vector\<close> outside its bounds or by reading through a
  weight pointer whose map entry was erased, or by initialising an array of bound zero.
  The state paired with it is the one the call had reached at that point; the history
  of an object ends there.

  A member function is a function from the object's state (and the arguments) to a pair:
  what the caller gets (\<open>Inl\<close> an exception, \<open>Inr\<close> the returned value) and the state
  the object is left in. An exception leaves the object alive, with whatever was written
  before the \<^verbatim>\<open>throw\<close>.
\<close>

datatype error =
    DuplicateVertex
  | UnknownVertex
  | EdgeDoesNotExist
  | EdgeNotFound
  | EdgeAlreadyExists
  | OutOfRange

type_synonym ('r, 's) outcome = "(error + 'r) \<times> 's"

section \<open>Containers\<close>

text \<open>
  \<^verbatim>\<open>std::unordered_map\<close> is a \<open>mapping\<close>. Its \<^verbatim>\<open>operator[]\<close> inserts a
  value-initialised entry when the key is missing, also when the caller only reads:
  \<open>subscript m k d\<close> is the value \<^verbatim>\<open>m[k]\<close> refers to (\<open>d\<close> being the
  value-initialised element) and \<open>touch m k d\<close> is the map after the access.
  An \<^verbatim>\<open>std::unordered_set\<close> passed as an argument is given as the list of its elements
  in iteration order.
\<close>

definition subscript :: "('k, 'a) mapping \<Rightarrow> 'k \<Rightarrow> 'a \<Rightarrow> 'a" where
  "subscript m k d = (case Mapping.lookup m k of None \<Rightarrow> d | Some x \<Rightarrow> x)"

definition touch :: "('k, 'a) mapping \<Rightarrow> 'k \<Rightarrow> 'a \<Rightarrow> ('k, 'a) mapping" where
  "touch m k d = (case Mapping.lookup m k of None \<Rightarrow> Mapping.update k d m | Some x \<Rightarrow> m)"

text \<open>
  The loop \<^verbatim>\<open>for (child : list) { if (child.first == v) break; to_remove++; }\<close>
  leaves in \<^verbatim>\<open>to_remove\<close> the position of the first entry for \<open>v\<close>, or the length of
  the list when there is none. \<open>erase_at i xs\<close> is \<^verbatim>\<open>xs.erase(xs.begin() + i)\<close>
  for \<open>i\<close> inside the vector.
\<close>

fun to_remove :: "'v \<Rightarrow> ('v \<times> 'w) list \<Rightarrow> nat" where
  "to_remove v [] = 0"
| "to_remove v (child # rest) = (if fst child = v then 0 else Suc (to_remove v rest))"

definition erase_at :: "nat \<Rightarrow> 'a list \<Rightarrow> 'a list" where
  "erase_at i xs = take i xs @ drop (Suc i) xs"

section \<open>The adjacency list with edge weights\<close>

text \<open>
  \<^verbatim>\<open>AdjacencyListGraph<Vertex, EdgeWeight>\<close> of \<^verbatim>\<open>adjacency_list.hpp\<close>, with the
  vertex set of its base class \<^verbatim>\<open>AdjacencyListGraphCommon\<close>.
\<close>

record ('v, 'w) wl_graph =
  wl_directed :: bool
  wl_vertices :: "'v set"
  wl_adjacency_list :: "('v, ('v \<times> 'w) list) mapping"

definition wl_init :: "bool \<Rightarrow> 'v list \<Rightarrow> ('v, 'w) wl_graph" where
  "wl_init directed vs =
     \<lparr>wl_directed = directed, wl_vertices = set vs,
      wl_adjacency_list = fold (\<lambda>v m. Mapping.update v [] m) vs Mapping.empty\<rparr>"

definition wl_has_vertex :: "('v, 'w) wl_graph \<Rightarrow> 'v \<Rightarrow> (bool, ('v, 'w) wl_graph) outcome" where
  "wl_has_vertex g v = (Inr (v \<in> wl_vertices g), g)"

definition wl_get_edge_weight ::
  "('v, 'w) wl_graph \<Rightarrow> 'v \<Rightarrow> 'v \<Rightarrow> ('w, ('v, 'w) wl_graph) outcome" where
  "wl_get_edge_weight g u v =
     (let g' = g\<lparr>wl_adjacency_list := touch (wl_adjacency_list g) u []\<rparr> in
      case map_of (subscript (wl_adjacency_list g) u []) v of
        Some weight \<Rightarrow> (Inr weight, g')
      | None \<Rightarrow> (Inl EdgeDoesNotExist, g'))"

definition wl_add_vertex :: "('v, 'w) wl_graph \<Rightarrow> 'v \<Rightarrow> (unit, ('v, 'w) wl_graph) outcome" where
  "wl_add_vertex g v =
     (if v \<in> wl_vertices g then (Inl DuplicateVertex, g)
      else (Inr (),
            g\<lparr>wl_vertices := insert v (wl_vertices g),
              wl_adjacency_list := Mapping.update v [] (wl_adjacency_list g)\<rparr>))"

definition wl_add_vertices ::
  "('v, 'w) wl_graph \<Rightarrow> 'v list \<Rightarrow> (unit, ('v, 'w) wl_graph) outcome" where
  "wl_add_vertices g vs =
     (if list_ex (\<lambda>v. v \<in> wl_vertices g) vs then (Inl DuplicateVertex, g)
      else (Inr (),
            g\<lparr>wl_vertices := wl_vertices g \<union> set vs,
              wl_adjacency_list := fold (\<lambda>v m. Mapping.update v [] m) vs (wl_adjacency_list g)\<rparr>))"

text \<open>
  \<^verbatim>\<open>remove_vertex\<close> erases the vertex and its own neighbour list. Its loop over the
  other lists assigns each list to the local vector \<^verbatim>\<open>children\<close>
  (\<^verbatim>\<open>children = it.second\<close>, a copy) and erases from that copy only, so the loop
  writes nothing to \<^verbatim>\<open>adjacency_list\<close> and the stored lists stay as they were.
\<close>

definition wl_remove_vertex :: "('v, 'w) wl_graph \<Rightarrow> 'v \<Rightarrow> (unit, ('v, 'w) wl_graph) outcome" where
  "wl_remove_vertex g v =
     (if v \<in> wl_vertices g
      then (Inr (),
            g\<lparr>wl_vertices := wl_vertices g - {v},
              wl_adjacency_list := Mapping.delete v (wl_adjacency_list g)\<rparr>)
      else (Inl UnknownVertex, g))"

text \<open>
  \<open>put_neighbor v weight list\<close>: erase the first entry for \<open>v\<close> if there is one, then
  \<^verbatim>\<open>push_back({v, weight})\<close>.
\<close>

definition put_neighbor :: "'v \<Rightarrow> 'w \<Rightarrow> ('v \<times> 'w) list \<Rightarrow> ('v \<times> 'w) list" where
  "put_neighbor v weight list =
     (if to_remove v list < length list then erase_at (to_remove v list) list else list)
       @ [(v, weight)]"

definition wl_set_edge_weight ::
  "('v, 'w) wl_graph \<Rightarrow> 'v \<Rightarrow> 'v \<Rightarrow> 'w \<Rightarrow> (unit, ('v, 'w) wl_graph) outcome" where
  "wl_set_edge_weight g u v weight =
     (if \<not> (u \<in> wl_vertices g \<and> v \<in> wl_vertices g) then (Inl UnknownVertex, g)
      else
        let m1 = Mapping.update u (put_neighbor v weight (subscript (wl_adjacency_list g) u []))
                   (wl_adjacency_list g);
            m2 = (if wl_directed g then m1
                  else Mapping.update v (put_neighbor u weight (subscript m1 v [])) m1)
        in (Inr (), g\<lparr>wl_adjacency_list := m2\<rparr>))"

text \<open>
  \<^verbatim>\<open>remove_edge\<close>: the mirror entry of an undirected graph is erased at the position
  the loop found, with no test that it found one; when the neighbour's list has no entry
  the call is \<^verbatim>\<open>erase(end())\<close>.
\<close>

definition wl_remove_edge ::
  "('v, 'w) wl_graph \<Rightarrow> 'v \<Rightarrow> 'v \<Rightarrow> (unit, ('v, 'w) wl_graph) outcome" where
  "wl_remove_edge g u v =
     (if \<not> (u \<in> wl_vertices g \<and> v \<in> wl_vertices g) then (Inl UnknownVertex, g)
      else
        let m0 = touch (wl_adjacency_list g) u [];
            us = subscript m0 u []
        in if to_remove v us < length us
           then
             let m1 = Mapping.update u (erase_at (to_remove v us) us) m0 in
             if wl_directed g then (Inr (), g\<lparr>wl_adjacency_list := m1\<rparr>)
             else
               let m2 = touch m1 v [];
                   vs = subscript m2 v []
               in if to_remove u vs < length vs
                  then (Inr (),
                        g\<lparr>wl_adjacency_list := Mapping.update v (erase_at (to_remove u vs) vs) m2\<rparr>)
                  else (Inl OutOfRange, g\<lparr>wl_adjacency_list := m2\<rparr>)
           else (Inl EdgeNotFound, g\<lparr>wl_adjacency_list := m0\<rparr>))"

definition wl_has_edge ::
  "('v, 'w) wl_graph \<Rightarrow> 'v \<Rightarrow> 'v \<Rightarrow> (bool, ('v, 'w) wl_graph) outcome" where
  "wl_has_edge g u v =
     (if \<not> (u \<in> wl_vertices g \<and> v \<in> wl_vertices g) then (Inr False, g)
      else (Inr (v \<in> fst ` set (subscript (wl_adjacency_list g) u [])),
            g\<lparr>wl_adjacency_list := touch (wl_adjacency_list g) u []\<rparr>))"

definition wl_get_children ::
  "('v, 'w) wl_graph \<Rightarrow> 'v \<Rightarrow> ('v set, ('v, 'w) wl_graph) outcome" where
  "wl_get_children g v =
     (if \<not> (v \<in> wl_vertices g) then (Inl UnknownVertex, g)
      else (Inr (fst ` set (subscript (wl_adjacency_list g) v [])),
            g\<lparr>wl_adjacency_list := touch (wl_adjacency_list g) v []\<rparr>))"

text \<open>
  \<^verbatim>\<open>get_parents\<close> walks every entry of the map, skips the entry of \<open>v\<close> itself
  (\<^verbatim>\<open>if ( it.first == v ) continue;\<close>) and collects the keys whose list names \<open>v\<close>.
\<close>

definition wl_get_parents ::
  "('v, 'w) wl_graph \<Rightarrow> 'v \<Rightarrow> ('v set, ('v, 'w) wl_graph) outcome" where
  "wl_get_parents g v =
     (if \<not> (v \<in> wl_vertices g) then (Inl UnknownVertex, g)
      else (Inr (Set.filter
                   (\<lambda>p. p \<noteq> v \<and> v \<in> fst ` set (subscript (wl_adjacency_list g) p []))
                   (Mapping.keys (wl_adjacency_list g))),
            g))"

section \<open>The adjacency list without edge weights\<close>

text \<open>
  The specialisation \<^verbatim>\<open>AdjacencyListGraph<Vertex, bool>\<close>: a set of neighbours per
  vertex. Its \<^verbatim>\<open>has_edge\<close> reads \<^verbatim>\<open>adjacency_list[u]\<close> with no test that
  \<open>u\<close> is a vertex.
\<close>

record 'v ul_graph =
  ul_directed :: bool
  ul_vertices :: "'v set"
  ul_adjacency_list :: "('v, 'v set) mapping"

definition ul_init :: "bool \<Rightarrow> 'v list \<Rightarrow> 'v ul_graph" where
  "ul_init directed vs =
     \<lparr>ul_directed = directed, ul_vertices = set vs,
      ul_adjacency_list = fold (\<lambda>v m. Mapping.update v {} m) vs Mapping.empty\<rparr>"

definition ul_has_vertex :: "'v ul_graph \<Rightarrow> 'v \<Rightarrow> (bool, 'v ul_graph) outcome" where
  "ul_has_vertex g v = (Inr (v \<in> ul_vertices g), g)"

definition ul_has_edge :: "'v ul_graph \<Rightarrow> 'v \<Rightarrow> 'v \<Rightarrow> (bool, 'v ul_graph) outcome" where
  "ul_has_edge g u v =
     (Inr (v \<in> subscript (ul_adjacency_list g) u {}),
      g\<lparr>ul_adjacency_list := touch (ul_adjacency_list g) u {}\<rparr>)"

definition ul_get_edge_weight :: "'v ul_graph \<Rightarrow> 'v \<Rightarrow> 'v \<Rightarrow> (bool, 'v ul_graph) outcome" where
  "ul_get_edge_weight g u v =
     (if \<not> (u \<in> ul_vertices g \<and> v \<in> ul_vertices g) then (Inl UnknownVertex, g)
      else ul_has_edge g u v)"

definition ul_add_vertex :: "'v ul_graph \<Rightarrow> 'v \<Rightarrow> (unit, 'v ul_graph) outcome" where
  "ul_add_vertex g v =
     (if v \<in> ul_vertices g then (Inl DuplicateVertex, g)
      else (Inr (),
            g\<lparr>ul_vertices := insert v (ul_vertices g),
              ul_adjacency_list := Mapping.update v {} (ul_adjacency_list g)\<rparr>))"

definition ul_add_vertices :: "'v ul_graph \<Rightarrow> 'v list \<Rightarrow> (unit, 'v ul_graph) outcome" where
  "ul_add_vertices g vs =
     (if list_ex (\<lambda>v. v \<in> ul_vertices g) vs then (Inl DuplicateVertex, g)
      else (Inr (),
            g\<lparr>ul_vertices := ul_vertices g \<union> set vs,
              ul_adjacency_list := fold (\<lambda>v m. Mapping.update v {} m) vs (ul_adjacency_list g)\<rparr>))"

definition ul_remove_vertex :: "'v ul_graph \<Rightarrow> 'v \<Rightarrow> (unit, 'v ul_graph) outcome" where
  "ul_remove_vertex g v =
     (if v \<in> ul_vertices g
      then (Inr (),
            g\<lparr>ul_vertices := ul_vertices g - {v},
              ul_adjacency_list :=
                Mapping.map_values (\<lambda>k children. children - {v})
                  (Mapping.delete v (ul_adjacency_list g))\<rparr>)
      else (Inl UnknownVertex, g))"

definition ul_remove_edge :: "'v ul_graph \<Rightarrow> 'v \<Rightarrow> 'v \<Rightarrow> (unit, 'v ul_graph) outcome" where
  "ul_remove_edge g u v =
     (let g0 = snd (ul_has_edge g u v) in
      if fst (ul_has_edge g u v) = Inr True
      then
        let m1 = Mapping.update u (subscript (ul_adjacency_list g0) u {} - {v})
                   (ul_adjacency_list g0);
            m2 = (if ul_directed g0 then m1
                  else Mapping.update v (subscript m1 v {} - {u}) m1)
        in (Inr (), g0\<lparr>ul_adjacency_list := m2\<rparr>)
      else (Inl EdgeNotFound, g0))"

text \<open>
  \<^verbatim>\<open>set_edge_weight\<close> with \<^verbatim>\<open>weight == false\<close> calls \<^verbatim>\<open>remove_edge\<close> inside
  \<^verbatim>\<open>try { } catch ( std::invalid_argument e ) {}\<close>: the exception is dropped and the
  call returns.
\<close>

definition ul_set_edge_weight ::
  "'v ul_graph \<Rightarrow> 'v \<Rightarrow> 'v \<Rightarrow> bool \<Rightarrow> (unit, 'v ul_graph) outcome" where
  "ul_set_edge_weight g u v weight =
     (if \<not> (u \<in> ul_vertices g \<and> v \<in> ul_vertices g) then (Inl UnknownVertex, g)
      else if weight
      then
        let m1 = Mapping.update u (insert v (subscript (ul_adjacency_list g) u {}))
                   (ul_adjacency_list g);
            m2 = (if ul_directed g then m1
                  else Mapping.update v (insert u (subscript m1 v {})) m1)
        in (Inr (), g\<lparr>ul_adjacency_list := m2\<rparr>)
      else (Inr (), snd (ul_remove_edge g u v)))"

definition ul_add_edge :: "'v ul_graph \<Rightarrow> 'v \<Rightarrow> 'v \<Rightarrow> (unit, 'v ul_graph) outcome" where
  "ul_add_edge g u v =
     (let g0 = snd (ul_has_edge g u v) in
      if fst (ul_has_edge g u v) = Inr True then (Inl EdgeAlreadyExists, g0)
      else if \<not> (u \<in> ul_vertices g0 \<and> v \<in> ul_vertices g0) then (Inl UnknownVertex, g0)
      else
        let m1 = Mapping.update u (insert v (subscript (ul_adjacency_list g0) u {}))
                   (ul_adjacency_list g0);
            m2 = (if ul_directed g0 then m1
                  else Mapping.update v (insert u (subscript m1 v {})) m1)
        in (Inr (), g0\<lparr>ul_adjacency_list := m2\<rparr>))"

text \<open>
  \<^verbatim>\<open>add_edges\<close>: the \<^verbatim>\<open>try\<close> block adds the edges in order and records each one
  added; the handler removes the recorded edges and throws the caught exception again
  (an exception of a removal leaves the handler in its place).
\<close>

fun ul_add_edges_try ::
  "'v ul_graph \<Rightarrow> ('v \<times> 'v) list \<Rightarrow> ('v \<times> 'v) list \<Rightarrow> (error + unit) \<times> 'v ul_graph \<times> ('v \<times> 'v) list" where
  "ul_add_edges_try g [] added_edges = (Inr (), g, added_edges)"
| "ul_add_edges_try g (edge # edges) added_edges =
     (case ul_add_edge g (fst edge) (snd edge) of
        (Inl e, g') \<Rightarrow> (Inl e, g', added_edges)
      | (Inr _, g') \<Rightarrow> ul_add_edges_try g' edges (added_edges @ [edge]))"

fun ul_add_edges_undo :: "'v ul_graph \<Rightarrow> ('v \<times> 'v) list \<Rightarrow> (unit, 'v ul_graph) outcome" where
  "ul_add_edges_undo g [] = (Inr (), g)"
| "ul_add_edges_undo g (edge # added_edges) =
     (case ul_remove_edge g (fst edge) (snd edge) of
        (Inl e, g') \<Rightarrow> (Inl e, g')
      | (Inr _, g') \<Rightarrow> ul_add_edges_undo g' added_edges)"

definition ul_add_edges :: "'v ul_graph \<Rightarrow> ('v \<times> 'v) list \<Rightarrow> (unit, 'v ul_graph) outcome" where
  "ul_add_edges g edges =
     (case ul_add_edges_try g edges [] of
        (Inr _, g', added_edges) \<Rightarrow> (Inr (), g')
      | (Inl e, g', added_edges) \<Rightarrow>
          (case ul_add_edges_undo g' added_edges of
             (Inl e', g'') \<Rightarrow> (Inl e', g'')
           | (Inr _, g'') \<Rightarrow> (Inl e, g'')))"

definition ul_get_children :: "'v ul_graph \<Rightarrow> 'v \<Rightarrow> ('v set, 'v ul_graph) outcome" where
  "ul_get_children g v =
     (if \<not> (v \<in> ul_vertices g) then (Inl UnknownVertex, g)
      else (Inr (subscript (ul_adjacency_list g) v {}),
            g\<lparr>ul_adjacency_list := touch (ul_adjacency_list g) v {}\<rparr>))"

definition ul_get_parents :: "'v ul_graph \<Rightarrow> 'v \<Rightarrow> ('v set, 'v ul_graph) outcome" where
  "ul_get_parents g v =
     (if \<not> (v \<in> ul_vertices g) then (Inl UnknownVertex, g)
      else (Inr (Set.filter (\<lambda>p. v \<in> subscript (ul_adjacency_list g) p {})
                   (Mapping.keys (ul_adjacency_list g))),
            g))"

section \<open>The adjacency matrix\<close>

text \<open>
  \<^verbatim>\<open>AdjacencyMatrixGraph<Vertex, EdgeWeight>\<close> of \<^verbatim>\<open>adjacency_matrix.hpp\<close>.
  A cell of the matrix is an \<^verbatim>\<open>EdgeWeight*\<close>: \<open>None\<close> is \<^verbatim>\<open>nullptr\<close>, and
  \<open>Some key\<close> is \<^verbatim>\<open>&edge_weights[key]\<close>, the address of the value stored under
  \<open>key\<close> in the weight store. Reading through it is looking \<open>key\<close> up; a pointer whose
  entry was erased dangles. Indices are \<^verbatim>\<open>int\<close>s that count vertices; they are
  natural numbers here.
\<close>

record ('v, 'w) am_graph =
  am_directed :: bool
  am_adjacency_matrix :: "(nat \<times> nat) option list list"
  am_edge_weights :: "(nat \<times> nat, 'w) mapping"
  am_vertex_indices :: "('v, nat) mapping"
  am_vertices :: "'v list"

text \<open>
  \<open>and_then\<close> runs the rest of a member function on the value and state of a call that
  returned, and passes an exception (or \<open>OutOfRange\<close>) on with the state it left.
\<close>

definition and_then ::
  "('a, 's) outcome \<Rightarrow> ('a \<Rightarrow> 's \<Rightarrow> ('b, 's) outcome) \<Rightarrow> ('b, 's) outcome" where
  "and_then r f = (case r of (Inl e, s) \<Rightarrow> (Inl e, s) | (Inr a, s) \<Rightarrow> f a s)"

text \<open>
  \<open>cell M i j\<close> reads \<^verbatim>\<open>M[i][j]\<close>, \<open>set_cell M i j x\<close> writes it; both are
  defined only when \<open>in_range M i j\<close>.
\<close>

definition in_range :: "'a list list \<Rightarrow> nat \<Rightarrow> nat \<Rightarrow> bool" where
  "in_range M i j = (i < length M \<and> j < length (M ! i))"

definition cell :: "'a list list \<Rightarrow> nat \<Rightarrow> nat \<Rightarrow> error + 'a" where
  "cell M i j = (if in_range M i j then Inr (M ! i ! j) else Inl OutOfRange)"

definition set_cell :: "'a list list \<Rightarrow> nat \<Rightarrow> nat \<Rightarrow> 'a \<Rightarrow> 'a list list" where
  "set_cell M i j x = M[i := (M ! i)[j := x]]"

definition am_init :: "bool \<Rightarrow> 'v list \<Rightarrow> ('v, 'w) am_graph" where
  "am_init directed vs =
     \<lparr>am_directed = directed,
      am_adjacency_matrix = replicate (length vs) (replicate (length vs) None),
      am_edge_weights = Mapping.empty,
      am_vertex_indices =
        fold (\<lambda>(i, v) m. Mapping.update v i m) (zip [0 ..< length vs] vs) Mapping.empty,
      am_vertices = vs\<rparr>"

definition am_get_vertex_int :: "('v, 'w) am_graph \<Rightarrow> 'v \<Rightarrow> (nat, ('v, 'w) am_graph) outcome" where
  "am_get_vertex_int g v =
     (if v \<in> set (am_vertices g)
      then (Inr (subscript (am_vertex_indices g) v 0),
            g\<lparr>am_vertex_indices := touch (am_vertex_indices g) v 0\<rparr>)
      else (Inl UnknownVertex, g))"

definition am_get_edge_weight ::
  "('v, 'w) am_graph \<Rightarrow> 'v \<Rightarrow> 'v \<Rightarrow> ('w, ('v, 'w) am_graph) outcome" where
  "am_get_edge_weight g u v =
     and_then (am_get_vertex_int g u) (\<lambda>u_index g1.
     and_then (am_get_vertex_int g1 v) (\<lambda>v_index g2.
       case cell (am_adjacency_matrix g2) u_index v_index of
         Inl e \<Rightarrow> (Inl e, g2)
       | Inr None \<Rightarrow> (Inl EdgeDoesNotExist, g2)
       | Inr (Some key) \<Rightarrow>
           (case Mapping.lookup (am_edge_weights g2) key of
              None \<Rightarrow> (Inl OutOfRange, g2)
            | Some weight \<Rightarrow> (Inr weight, g2))))"

text \<open>
  \<^verbatim>\<open>add_vertex\<close> reads \<^verbatim>\<open>n_vertices = vertices.size()\<close> before the
  \<^verbatim>\<open>push_back\<close>, appends one \<^verbatim>\<open>nullptr\<close> to every row and then a new row
  \<^verbatim>\<open>vector<EdgeWeight*>(n_vertices, nullptr)\<close>.
\<close>

definition am_add_vertex :: "('v, 'w) am_graph \<Rightarrow> 'v \<Rightarrow> (unit, ('v, 'w) am_graph) outcome" where
  "am_add_vertex g v =
     (if v \<in> set (am_vertices g) then (Inl DuplicateVertex, g)
      else
        let n_vertices = length (am_vertices g) in
        (Inr (),
         g\<lparr>am_vertices := am_vertices g @ [v],
           am_vertex_indices := Mapping.update v n_vertices (am_vertex_indices g),
           am_adjacency_matrix :=
             map (\<lambda>row. row @ [None]) (am_adjacency_matrix g) @ [replicate n_vertices None]\<rparr>))"

text \<open>
  \<^verbatim>\<open>add_vertices\<close> reads \<^verbatim>\<open>n_vertices = this->vertices.size()\<close> after the new
  vertices were appended and counts on from there while it assigns the indices; the final
  count is the length of the array \<^verbatim>\<open>new_edge_weights\<close> appended to every row and of
  the array \<^verbatim>\<open>new_rows\<close>, whose one initialiser is a row of that many
  \<^verbatim>\<open>nullptr\<close> and whose other elements are empty vectors. Both are arrays of
  runtime bound with one initialiser each (\<^verbatim>\<open>= { nullptr }\<close>,
  \<^verbatim>\<open>= { vector<EdgeWeight*>(n_vertices, nullptr) }\<close>): when the count is zero, for a
  graph without vertices and an empty batch, the initialiser is written outside the
  array.
\<close>

definition am_add_vertices ::
  "('v, 'w) am_graph \<Rightarrow> 'v list \<Rightarrow> (unit, ('v, 'w) am_graph) outcome" where
  "am_add_vertices g vs =
     (if list_ex (\<lambda>v. v \<in> set (am_vertices g)) vs then (Inl DuplicateVertex, g)
      else
        let vertices' = am_vertices g @ vs;
            n0 = length vertices';
            n_vertices = n0 + length vs;
            g1 = g\<lparr>am_vertices := vertices',
                   am_vertex_indices :=
                     fold (\<lambda>(i, v) m. Mapping.update v i m) (zip [n0 ..< n_vertices] vs)
                       (am_vertex_indices g)\<rparr>;
            new_edge_weights = replicate n_vertices None;
            new_rows = replicate n_vertices None # replicate (n_vertices - 1) []
        in if n_vertices = 0 then (Inl OutOfRange, g1)
           else (Inr (),
                 g1\<lparr>am_adjacency_matrix :=
                      map (\<lambda>row. row @ new_edge_weights) (am_adjacency_matrix g1) @ new_rows\<rparr>))"

text \<open>
  The scans of \<^verbatim>\<open>get_children\<close> and \<^verbatim>\<open>get_parents\<close>: \<open>u_index\<close> runs over
  \<^verbatim>\<open>0 .. vertices.size() - 1\<close>, \<open>rd u_index\<close> reads the cell of that round, and a
  vertex is collected when its cell is not \<^verbatim>\<open>nullptr\<close>.
\<close>

fun am_scan :: "(nat \<Rightarrow> error + 'c option) \<Rightarrow> 'v list \<Rightarrow> nat list \<Rightarrow> error + 'v list" where
  "am_scan rd vertices [] = Inr []"
| "am_scan rd vertices (u_index # rest) =
     (case rd u_index of
        Inl e \<Rightarrow> Inl e
      | Inr c \<Rightarrow>
          (case am_scan rd vertices rest of
             Inl e \<Rightarrow> Inl e
           | Inr found \<Rightarrow> Inr (if c \<noteq> None then vertices ! u_index # found else found)))"

definition am_children_list ::
  "('v, 'w) am_graph \<Rightarrow> 'v \<Rightarrow> ('v list, ('v, 'w) am_graph) outcome" where
  "am_children_list g v =
     and_then (am_get_vertex_int g v) (\<lambda>v_index g1.
       (am_scan (\<lambda>u_index. cell (am_adjacency_matrix g1) v_index u_index)
          (am_vertices g1) [0 ..< length (am_vertices g1)], g1))"

definition am_parents_list ::
  "('v, 'w) am_graph \<Rightarrow> 'v \<Rightarrow> ('v list, ('v, 'w) am_graph) outcome" where
  "am_parents_list g v =
     and_then (am_get_vertex_int g v) (\<lambda>v_index g1.
       (am_scan (\<lambda>u_index. cell (am_adjacency_matrix g1) u_index v_index)
          (am_vertices g1) [0 ..< length (am_vertices g1)], g1))"

definition am_get_children ::
  "('v, 'w) am_graph \<Rightarrow> 'v \<Rightarrow> ('v set, ('v, 'w) am_graph) outcome" where
  "am_get_children g v = and_then (am_children_list g v) (\<lambda>children g1. (Inr (set children), g1))"

definition am_get_parents ::
  "('v, 'w) am_graph \<Rightarrow> 'v \<Rightarrow> ('v set, ('v, 'w) am_graph) outcome" where
  "am_get_parents g v = and_then (am_parents_list g v) (\<lambda>parents g1. (Inr (set parents), g1))"

text \<open>
  \<^verbatim>\<open>remove_vertex\<close>, first part: for every neighbour \<open>x\<close> in turn, look its index up
  and erase from the weight store the keys \<open>keys_of neighbor_index\<close>.
\<close>

fun am_erase_weights ::
  "('v, 'w) am_graph \<Rightarrow> (nat \<Rightarrow> (nat \<times> nat) list) \<Rightarrow> 'v list \<Rightarrow> (unit, ('v, 'w) am_graph) outcome" where
  "am_erase_weights g keys_of [] = (Inr (), g)"
| "am_erase_weights g keys_of (x # rest) =
     and_then (am_get_vertex_int g x) (\<lambda>neighbor_index g1.
       am_erase_weights
         (g1\<lparr>am_edge_weights := fold Mapping.delete (keys_of neighbor_index) (am_edge_weights g1)\<rparr>)
         keys_of rest)"

text \<open>
  Second part: the row \<open>v_index\<close> is erased, then the loop
  \<^verbatim>\<open>for ( int i = 0; i < vertices.size(); i++ )\<close> erases column \<open>v_index\<close> of
  \<^verbatim>\<open>adjacency_matrix[i]\<close>; \<^verbatim>\<open>vertices\<close> still has the removed vertex at that point.
\<close>

fun am_erase_column :: "nat \<Rightarrow> 'a list list \<Rightarrow> nat list \<Rightarrow> error + 'a list list" where
  "am_erase_column v_index M [] = Inr M"
| "am_erase_column v_index M (i # rest) =
     (if in_range M i v_index
      then am_erase_column v_index (M[i := erase_at v_index (M ! i)]) rest
      else Inl OutOfRange)"

definition am_remove_vertex :: "('v, 'w) am_graph \<Rightarrow> 'v \<Rightarrow> (unit, ('v, 'w) am_graph) outcome" where
  "am_remove_vertex g v =
     and_then (am_get_vertex_int g v) (\<lambda>v_index g1.
     and_then
       (if am_directed g1
        then
          and_then (am_children_list g1 v) (\<lambda>children g2.
          and_then (am_erase_weights g2 (\<lambda>neighbor_index. [(v_index, neighbor_index)]) children)
            (\<lambda>_ g3.
          and_then (am_parents_list g3 v) (\<lambda>parents g4.
            am_erase_weights g4 (\<lambda>neighbor_index. [(neighbor_index, v_index)]) parents)))
        else
          and_then (am_children_list g1 v) (\<lambda>children g2.
            am_erase_weights g2
              (\<lambda>neighbor_index. [(v_index, neighbor_index), (neighbor_index, v_index)]) children))
       (\<lambda>_ g5.
          if \<not> v_index < length (am_adjacency_matrix g5) then (Inl OutOfRange, g5)
          else
            let rows = erase_at v_index (am_adjacency_matrix g5) in
            case am_erase_column v_index rows [0 ..< length (am_vertices g5)] of
              Inl e \<Rightarrow> (Inl e, g5\<lparr>am_adjacency_matrix := rows\<rparr>)
            | Inr M \<Rightarrow>
                (Inr (),
                 g5\<lparr>am_adjacency_matrix := M,
                    am_vertices := remove1 v (am_vertices g5),
                    am_vertex_indices := Mapping.delete v (am_vertex_indices g5)\<rparr>)))"

definition am_set_edge_weight ::
  "('v, 'w) am_graph \<Rightarrow> 'v \<Rightarrow> 'v \<Rightarrow> 'w \<Rightarrow> (unit, ('v, 'w) am_graph) outcome" where
  "am_set_edge_weight g u v weight =
     and_then (am_get_vertex_int g u) (\<lambda>u_index g1.
     and_then (am_get_vertex_int g1 v) (\<lambda>v_index g2.
       let g3 = g2\<lparr>am_edge_weights := Mapping.update (u_index, v_index) weight (am_edge_weights g2)\<rparr>
       in if \<not> in_range (am_adjacency_matrix g3) u_index v_index then (Inl OutOfRange, g3)
          else
            let g4 = g3\<lparr>am_adjacency_matrix :=
                          set_cell (am_adjacency_matrix g3) u_index v_index (Some (u_index, v_index))\<rparr>
            in if am_directed g4 then (Inr (), g4)
               else
                 let g5 = g4\<lparr>am_edge_weights :=
                               Mapping.update (v_index, u_index) weight (am_edge_weights g4)\<rparr>
                 in if \<not> in_range (am_adjacency_matrix g5) v_index u_index then (Inl OutOfRange, g5)
                    else (Inr (),
                          g5\<lparr>am_adjacency_matrix :=
                               set_cell (am_adjacency_matrix g5) v_index u_index
                                 (Some (v_index, u_index))\<rparr>)))"

text \<open>
  \<^verbatim>\<open>remove_edge\<close> on an empty cell writes "Attempting to remove edge that does not
  exist." to \<^verbatim>\<open>std::cerr\<close> and returns.
\<close>

definition am_remove_edge ::
  "('v, 'w) am_graph \<Rightarrow> 'v \<Rightarrow> 'v \<Rightarrow> (unit, ('v, 'w) am_graph) outcome" where
  "am_remove_edge g u v =
     and_then (am_get_vertex_int g u) (\<lambda>u_index g1.
     and_then (am_get_vertex_int g1 v) (\<lambda>v_index g2.
       case cell (am_adjacency_matrix g2) u_index v_index of
         Inl e \<Rightarrow> (Inl e, g2)
       | Inr None \<Rightarrow> (Inr (), g2)
       | Inr (Some key) \<Rightarrow>
           (let g3 = g2\<lparr>am_edge_weights := Mapping.delete (u_index, v_index) (am_edge_weights g2),
                        am_adjacency_matrix :=
                          set_cell (am_adjacency_matrix g2) u_index v_index None\<rparr>
            in if am_directed g3 then (Inr (), g3)
               else
                 let g4 = g3\<lparr>am_edge_weights :=
                               Mapping.delete (v_index, u_index) (am_edge_weights g3)\<rparr>
                 in if \<not> in_range (am_adjacency_matrix g4) v_index u_index then (Inl OutOfRange, g4)
                    else (Inr (),
                          g4\<lparr>am_adjacency_matrix :=
                               set_cell (am_adjacency_matrix g4) v_index u_index None\<rparr>))))"

definition am_has_edge ::
  "('v, 'w) am_graph \<Rightarrow> 'v \<Rightarrow> 'v \<Rightarrow> (bool, ('v, 'w) am_graph) outcome" where
  "am_has_edge g u v =
     and_then (am_get_vertex_int g u) (\<lambda>u_index g1.
     and_then (am_get_vertex_int g1 v) (\<lambda>v_index g2.
       case cell (am_adjacency_matrix g2) u_index v_index of
         Inl e \<Rightarrow> (Inl e, g2)
       | Inr weight_ptr \<Rightarrow> (Inr (weight_ptr \<noteq> None), g2)))"

definition am_has_vertex :: "('v, 'w) am_graph \<Rightarrow> 'v \<Rightarrow> (bool, ('v, 'w) am_graph) outcome" where
  "am_has_vertex g v = (Inr (v \<in> set (am_vertices g)), g)"

section \<open>Reachable states\<close>

text \<open>
  The states an object can be in: the constructor's, and the state any member function
  leaves, whether it returned or threw. A call that ran into \<open>OutOfRange\<close> ends the
  history: nothing is reachable through it. The argument of the constructor and of
  \<^verbatim>\<open>add_vertices\<close> is an \<^verbatim>\<open>unordered_set\<close>, so its list of elements has no
  repetition (this matters where the elements are stored in a vector).
\<close>

inductive wl_reachable :: "('v, 'w) wl_graph \<Rightarrow> bool" where
  wl_init: "wl_reachable (wl_init directed vs)"
| wl_has_vertex: "wl_reachable g \<Longrightarrow> wl_reachable (snd (wl_has_vertex g v))"
| wl_get_edge_weight: "wl_reachable g \<Longrightarrow> wl_reachable (snd (wl_get_edge_weight g u v))"
| wl_add_vertex: "wl_reachable g \<Longrightarrow> wl_reachable (snd (wl_add_vertex g v))"
| wl_add_vertices: "wl_reachable g \<Longrightarrow> wl_reachable (snd (wl_add_vertices g vs))"
| wl_remove_vertex: "wl_reachable g \<Longrightarrow> wl_reachable (snd (wl_remove_vertex g v))"
| wl_set_edge_weight: "wl_reachable g \<Longrightarrow> wl_reachable (snd (wl_set_edge_weight g u v weight))"
| wl_remove_edge:
    "wl_reachable g \<Longrightarrow> fst (wl_remove_edge g u v) \<noteq> Inl OutOfRange \<Longrightarrow>
     wl_reachable (snd (wl_remove_edge g u v))"
| wl_has_edge: "wl_reachable g \<Longrightarrow> wl_reachable (snd (wl_has_edge g u v))"
| wl_get_children: "wl_reachable g \<Longrightarrow> wl_reachable (snd (wl_get_children g v))"
| wl_get_parents: "wl_reachable g \<Longrightarrow> wl_reachable (snd (wl_get_parents g v))"

inductive ul_reachable :: "'v ul_graph \<Rightarrow> bool" where
  ul_init: "ul_reachable (ul_init directed vs)"
| ul_has_vertex: "ul_reachable g \<Longrightarrow> ul_reachable (snd (ul_has_vertex g v))"
| ul_get_edge_weight: "ul_reachable g \<Longrightarrow> ul_reachable (snd (ul_get_edge_weight g u v))"
| ul_add_vertex: "ul_reachable g \<Longrightarrow> ul_reachable (snd (ul_add_vertex g v))"
| ul_add_vertices: "ul_reachable g \<Longrightarrow> ul_reachable (snd (ul_add_vertices g vs))"
| ul_remove_vertex: "ul_reachable g \<Longrightarrow> ul_reachable (snd (ul_remove_vertex g v))"
| ul_set_edge_weight: "ul_reachable g \<Longrightarrow> ul_reachable (snd (ul_set_edge_weight g u v weight))"
| ul_add_edge: "ul_reachable g \<Longrightarrow> ul_reachable (snd (ul_add_edge g u v))"
| ul_add_edges: "ul_reachable g \<Longrightarrow> ul_reachable (snd (ul_add_edges g edges))"
| ul_remove_edge: "ul_reachable g \<Longrightarrow> ul_reachable (snd (ul_remove_edge g u v))"
| ul_has_edge: "ul_reachable g \<Longrightarrow> ul_reachable (snd (ul_has_edge g u v))"
| ul_get_children: "ul_reachable g \<Longrightarrow> ul_reachable (snd (ul_get_children g v))"
| ul_get_parents: "ul_reachable g \<Longrightarrow> ul_reachable (snd (ul_get_parents g v))"

inductive am_reachable :: "('v, 'w) am_graph \<Rightarrow> bool" where
  am_init: "distinct vs \<Longrightarrow> am_reachable (am_init directed vs)"
| am_has_vertex: "am_reachable g \<Longrightarrow> am_reachable (snd (am_has_vertex g v))"
| am_get_edge_weight:
    "am_reachable g \<Longrightarrow> fst (am_get_edge_weight g u v) \<noteq> Inl OutOfRange \<Longrightarrow>
     am_reachable (snd (am_get_edge_weight g u v))"
| am_add_vertex: "am_reachable g \<Longrightarrow> am_reachable (snd (am_add_vertex g v))"
| am_add_vertices:
    "am_reachable g \<Longrightarrow> distinct vs \<Longrightarrow> fst (am_add_vertices g vs) \<noteq> Inl OutOfRange \<Longrightarrow>
     am_reachable (snd (am_add_vertices g vs))"
| am_remove_vertex:
    "am_reachable g \<Longrightarrow> fst (am_remove_vertex g v) \<noteq> Inl OutOfRange \<Longrightarrow>
     am_reachable (snd (am_remove_vertex g v))"
| am_set_edge_weight:
    "am_reachable g \<Longrightarrow> fst (am_set_edge_weight g u v weight) \<noteq> Inl OutOfRange \<Longrightarrow>
     am_reachable (snd (am_set_edge_weight g u v weight))"
| am_remove_edge:
    "am_reachable g \<Longrightarrow> fst (am_remove_edge g u v) \<noteq> Inl OutOfRange \<Longrightarrow>
     am_reachable (snd (am_remove_edge g u v))"
| am_has_edge:
    "am_reachable g \<Longrightarrow> fst (am_has_edge g u v) \<noteq> Inl OutOfRange \<Longrightarrow>
     am_reachable (snd (am_has_edge g u v))"
| am_get_children:
    "am_reachable g \<Longrightarrow> fst (am_get_children g v) \<noteq> Inl OutOfRange \<Longrightarrow>
     am_reachable (snd (am_get_children g v))"
| am_get_parents:
    "am_reachable g \<Longrightarrow> fst (am_get_parents g v) \<noteq> Inl OutOfRange \<Longrightarrow>
     am_reachable (snd (am_get_parents g v))"

section \<open>Representation invariants\<close>

text \<open>
  \<open>wl_inv\<close>: every vertex has an entry in the adjacency list, and no neighbour list
  names a vertex twice. \<open>ul_inv\<close>: every vertex has an entry. \<open>am_keyed\<close>: the vertex
  vector has no repetition and every vertex has an index.
\<close>

definition wl_inv :: "('v, 'w) wl_graph \<Rightarrow> bool" where
  "wl_inv g =
     (wl_vertices g \<subseteq> Mapping.keys (wl_adjacency_list g) \<and>
      (\<forall>u. distinct (map fst (subscript (wl_adjacency_list g) u []))))"

definition ul_inv :: "'v ul_graph \<Rightarrow> bool" where
  "ul_inv g = (ul_vertices g \<subseteq> Mapping.keys (ul_adjacency_list g))"

definition am_keyed :: "('v, 'w) am_graph \<Rightarrow> bool" where
  "am_keyed g =
     (distinct (am_vertices g) \<and> set (am_vertices g) \<subseteq> Mapping.keys (am_vertex_indices g))"

text \<open>
  \<open>am_wf\<close>: the matrix is square of dimension \<open>|V|\<close> and the index of every vertex is
  a row and column of it. The constructor builds such a matrix.
\<close>

definition am_wf :: "('v, 'w) am_graph \<Rightarrow> bool" where
  "am_wf g =
     (length (am_adjacency_matrix g) = length (am_vertices g) \<and>
      list_all (\<lambda>row. length row = length (am_vertices g)) (am_adjacency_matrix g) \<and>
      list_all (\<lambda>v. case Mapping.lookup (am_vertex_indices g) v of
                       None \<Rightarrow> False
                     | Some i \<Rightarrow> i < length (am_vertices g))
               (am_vertices g))"

text \<open>
  \<open>am_has_cells g u v\<close>: the matrix has the cells that \<^verbatim>\<open>set_edge_weight(u, v, _)\<close>
  writes: the cell of the two indices, and the mirrored cell when the graph is
  undirected.
\<close>

definition am_has_cells :: "('v, 'w) am_graph \<Rightarrow> 'v \<Rightarrow> 'v \<Rightarrow> bool" where
  "am_has_cells g u v =
     (in_range (am_adjacency_matrix g)
        (subscript (am_vertex_indices g) u 0) (subscript (am_vertex_indices g) v 0) \<and>
      (am_directed g \<or>
       in_range (am_adjacency_matrix g)
         (subscript (am_vertex_indices g) v 0) (subscript (am_vertex_indices g) u 0)))"

lemmas container_defs = subscript_def touch_def erase_at_def

lemmas wl_defs = wl_init_def wl_has_vertex_def wl_get_edge_weight_def wl_add_vertex_def
  wl_add_vertices_def wl_remove_vertex_def put_neighbor_def wl_set_edge_weight_def
  wl_remove_edge_def wl_has_edge_def wl_get_children_def wl_get_parents_def

lemmas ul_defs = ul_init_def ul_has_vertex_def ul_has_edge_def ul_get_edge_weight_def
  ul_add_vertex_def ul_add_vertices_def ul_remove_vertex_def ul_remove_edge_def
  ul_set_edge_weight_def ul_add_edge_def ul_add_edges_def ul_get_children_def ul_get_parents_def

lemmas am_defs = and_then_def in_range_def cell_def set_cell_def am_init_def am_get_vertex_int_def
  am_get_edge_weight_def am_add_vertex_def am_add_vertices_def am_children_list_def
  am_parents_list_def am_get_children_def am_get_parents_def am_remove_vertex_def
  am_set_edge_weight_def am_remove_edge_def am_has_edge_def am_has_vertex_def

section \<open>Facts about the containers\<close>

lemma subscript_update:
  "subscript (Mapping.update k x m) k' d = (if k = k' then x else subscript m k' d)"
  by (simp add: subscript_def Mapping.lookup_update')

lemma subscript_delete:
  "subscript (Mapping.delete k m) k' d = (if k = k' then d else subscript m k' d)"
  by (simp add: subscript_def)

lemma subscript_touch: "subscript (touch m k d) k' d = subscript m k' d"
  by (cases "k = k'") (auto simp: subscript_def touch_def split: option.splits)

lemma keys_touch: "Mapping.keys (touch m k d) = insert k (Mapping.keys m)"
proof (cases "Mapping.lookup m k")
  case None
  then show ?thesis by (simp add: touch_def)
next
  case (Some x)
  then have "k \<in> Mapping.keys m" by (auto simp: keys_dom_lookup)
  with Some show ?thesis by (auto simp: touch_def)
qed

lemma touch_known: "k \<in> Mapping.keys m \<Longrightarrow> touch m k d = m"
  by (auto simp: touch_def keys_dom_lookup split: option.splits)

lemma subscript_unknown: "k \<notin> Mapping.keys m \<Longrightarrow> subscript m k d = d"
  by (auto simp: subscript_def keys_dom_lookup split: option.splits)

lemma lookup_fold_update:
  "Mapping.lookup (fold (\<lambda>v. Mapping.update v d) vs m) k =
     (if k \<in> set vs then Some d else Mapping.lookup m k)"
  by (induction vs arbitrary: m) (auto simp: Mapping.lookup_update')

lemma keys_fold_update:
  "Mapping.keys (fold (\<lambda>v. Mapping.update v d) vs m) = Mapping.keys m \<union> set vs"
  by (induction vs arbitrary: m) auto

lemma subscript_fold_update:
  "subscript (fold (\<lambda>v. Mapping.update v d) vs m) k d =
     (if k \<in> set vs then d else subscript m k d)"
  by (simp add: subscript_def lookup_fold_update)

lemma to_remove_less: "to_remove v cs < length cs \<longleftrightarrow> v \<in> fst ` set cs"
  by (induction cs) auto

lemma distinct_take_drop: "distinct xs \<Longrightarrow> distinct (take i xs @ drop (Suc i) xs)"
proof (induction xs arbitrary: i)
  case Nil
  then show ?case by simp
next
  case (Cons x xs)
  show ?case
  proof (cases i)
    case 0
    with Cons.prems show ?thesis by simp
  next
    case (Suc j)
    have "x \<notin> set (take j xs)" "x \<notin> set (drop (Suc j) xs)"
      using Cons.prems by (auto dest: in_set_takeD in_set_dropD)
    with Cons Suc show ?thesis by simp
  qed
qed

lemma distinct_erase_at: "distinct (map fst cs) \<Longrightarrow> distinct (map fst (erase_at i cs))"
  using distinct_take_drop[of "map fst cs" i] by (simp add: erase_at_def take_map drop_map)

lemma erase_first_gone:
  "distinct (map fst cs) \<Longrightarrow> v \<notin> fst ` set (erase_at (to_remove v cs) cs)"
proof (induction cs)
  case Nil
  then show ?case by (simp add: erase_at_def)
next
  case (Cons c cs)
  then show ?case by (auto simp: erase_at_def)
qed

lemma put_neighbor_distinct:
  "distinct (map fst cs) \<Longrightarrow> distinct (map fst (put_neighbor v w cs))"
  using erase_first_gone[of cs v] distinct_erase_at[of cs "to_remove v cs"]
  by (auto simp: put_neighbor_def to_remove_less)

lemma put_neighbor_mem: "v \<in> fst ` set (put_neighbor v w cs)"
  by (simp add: put_neighbor_def)

lemma map_of_put_neighbor:
  "distinct (map fst cs) \<Longrightarrow> map_of (put_neighbor v w cs) v = Some w"
  using erase_first_gone[of cs v]
  by (auto simp: put_neighbor_def to_remove_less map_add_Some_iff map_of_eq_None_iff)

section \<open>The weighted adjacency list: invariant and edge operations\<close>

lemma wl_inv_init: "wl_inv (wl_init directed vs)"
  by (simp add: wl_inv_def wl_init_def keys_fold_update subscript_fold_update
      subscript_unknown)

lemma wl_inv_has_vertex: "wl_inv g \<Longrightarrow> wl_inv (snd (wl_has_vertex g v))"
  by (simp add: wl_has_vertex_def)

lemma wl_inv_touch:
  "wl_inv g \<Longrightarrow> wl_inv (g\<lparr>wl_adjacency_list := touch (wl_adjacency_list g) u []\<rparr>)"
  by (auto simp: wl_inv_def keys_touch subscript_touch)

lemma wl_touch_vertex:
  "wl_inv g \<Longrightarrow> u \<in> wl_vertices g \<Longrightarrow> touch (wl_adjacency_list g) u [] = wl_adjacency_list g"
  by (auto simp: wl_inv_def intro: touch_known)

lemma wl_inv_get_edge_weight: "wl_inv g \<Longrightarrow> wl_inv (snd (wl_get_edge_weight g u v))"
  using wl_inv_touch[of g u] by (simp add: wl_get_edge_weight_def Let_def split: option.splits)

lemma wl_inv_add_vertex: "wl_inv g \<Longrightarrow> wl_inv (snd (wl_add_vertex g v))"
  by (auto simp: wl_add_vertex_def wl_inv_def subscript_update)

lemma wl_inv_add_vertices: "wl_inv g \<Longrightarrow> wl_inv (snd (wl_add_vertices g vs))"
  by (auto simp: wl_add_vertices_def wl_inv_def keys_fold_update subscript_fold_update)

lemma wl_inv_remove_vertex: "wl_inv g \<Longrightarrow> wl_inv (snd (wl_remove_vertex g v))"
  by (auto simp: wl_remove_vertex_def wl_inv_def subscript_delete)

lemma wl_inv_set_edge_weight: "wl_inv g \<Longrightarrow> wl_inv (snd (wl_set_edge_weight g u v weight))"
  by (auto simp: wl_set_edge_weight_def wl_inv_def Let_def subscript_update put_neighbor_distinct)

lemma wl_inv_remove_edge: "wl_inv g \<Longrightarrow> wl_inv (snd (wl_remove_edge g u v))"
  by (auto simp: wl_remove_edge_def wl_inv_def Let_def subscript_update subscript_touch
      keys_touch distinct_erase_at)

lemma wl_inv_has_edge: "wl_inv g \<Longrightarrow> wl_inv (snd (wl_has_edge g u v))"
  using wl_inv_touch[of g u] by (simp add: wl_has_edge_def)

lemma wl_inv_get_children: "wl_inv g \<Longrightarrow> wl_inv (snd (wl_get_children g v))"
  using wl_inv_touch[of g v] by (simp add: wl_get_children_def)

lemma wl_inv_get_parents: "wl_inv g \<Longrightarrow> wl_inv (snd (wl_get_parents g v))"
  by (simp add: wl_get_parents_def)

lemma wl_reachable_inv: "wl_reachable g \<Longrightarrow> wl_inv g"
  by (induction rule: wl_reachable.induct)
    (simp_all add: wl_inv_init wl_inv_has_vertex wl_inv_get_edge_weight wl_inv_add_vertex
      wl_inv_add_vertices wl_inv_remove_vertex wl_inv_set_edge_weight wl_inv_remove_edge
      wl_inv_has_edge wl_inv_get_children wl_inv_get_parents)

subsection \<open>Setting a weight, then reading it\<close>

lemma wl_set_then_get:
  assumes "wl_inv g" "u \<in> wl_vertices g" "v \<in> wl_vertices g"
  shows "fst (wl_set_edge_weight g u v weight) = Inr ()"
    and "fst (wl_has_edge (snd (wl_set_edge_weight g u v weight)) u v) = Inr True"
    and "fst (wl_get_edge_weight (snd (wl_set_edge_weight g u v weight)) u v) = Inr weight"
proof -
  let ?m = "wl_adjacency_list g"
  have d: "\<And>x. distinct (map fst (subscript ?m x []))"
    using assms(1) by (simp add: wl_inv_def)
  show "fst (wl_set_edge_weight g u v weight) = Inr ()"
    using assms by (simp add: wl_set_edge_weight_def Let_def)
  show "fst (wl_has_edge (snd (wl_set_edge_weight g u v weight)) u v) = Inr True"
    using assms
    by (simp add: wl_set_edge_weight_def wl_has_edge_def Let_def subscript_update put_neighbor_mem)
  show "fst (wl_get_edge_weight (snd (wl_set_edge_weight g u v weight)) u v) = Inr weight"
    using assms d
    by (simp add: wl_set_edge_weight_def wl_get_edge_weight_def Let_def subscript_update
        map_of_put_neighbor put_neighbor_distinct)
qed

lemma wl_remove_missing_edge:
  assumes "wl_inv g" "u \<in> wl_vertices g" "v \<in> wl_vertices g"
    and "fst (wl_has_edge g u v) = Inr False"
  shows "wl_remove_edge g u v = (Inl EdgeNotFound, g)"
  using assms wl_touch_vertex[of g u]
  by (simp add: wl_remove_edge_def wl_has_edge_def Let_def to_remove_less)


section \<open>The unweighted adjacency list: invariant, edge operations and queries\<close>

lemma ul_inv_init: "ul_inv (ul_init directed vs)"
  by (simp add: ul_inv_def ul_init_def keys_fold_update)

lemma ul_touch_vertex:
  "ul_inv g \<Longrightarrow> u \<in> ul_vertices g \<Longrightarrow> touch (ul_adjacency_list g) u {} = ul_adjacency_list g"
  by (auto simp: ul_inv_def intro: touch_known)

lemma ul_inv_has_edge: "ul_inv g \<Longrightarrow> ul_inv (snd (ul_has_edge g u v))"
  by (auto simp: ul_has_edge_def ul_inv_def keys_touch)

lemma ul_inv_get_edge_weight: "ul_inv g \<Longrightarrow> ul_inv (snd (ul_get_edge_weight g u v))"
  by (simp add: ul_get_edge_weight_def ul_inv_has_edge)

lemma ul_inv_add_vertex: "ul_inv g \<Longrightarrow> ul_inv (snd (ul_add_vertex g v))"
  by (auto simp: ul_add_vertex_def ul_inv_def)

lemma ul_inv_add_vertices: "ul_inv g \<Longrightarrow> ul_inv (snd (ul_add_vertices g vs))"
  by (auto simp: ul_add_vertices_def ul_inv_def keys_fold_update)

lemma ul_inv_remove_vertex: "ul_inv g \<Longrightarrow> ul_inv (snd (ul_remove_vertex g v))"
  by (auto simp: ul_remove_vertex_def ul_inv_def)

lemma ul_inv_remove_edge: "ul_inv g \<Longrightarrow> ul_inv (snd (ul_remove_edge g u v))"
  by (auto simp: ul_remove_edge_def ul_has_edge_def ul_inv_def Let_def keys_touch)

lemma ul_inv_set_edge_weight: "ul_inv g \<Longrightarrow> ul_inv (snd (ul_set_edge_weight g u v weight))"
  using ul_inv_remove_edge[of g u v]
  by (auto simp: ul_set_edge_weight_def Let_def ul_inv_def)

lemma ul_inv_add_edge: "ul_inv g \<Longrightarrow> ul_inv (snd (ul_add_edge g u v))"
  by (auto simp: ul_add_edge_def ul_has_edge_def ul_inv_def Let_def keys_touch)

lemma ul_inv_add_edges_try:
  "ul_inv g \<Longrightarrow> ul_inv (fst (snd (ul_add_edges_try g edges added_edges)))"
proof (induction edges arbitrary: g added_edges)
  case Nil
  then show ?case by simp
next
  case (Cons edge edges)
  obtain r g' where step: "ul_add_edge g (fst edge) (snd edge) = (r, g')"
    by (cases "ul_add_edge g (fst edge) (snd edge)")
  have "ul_inv g'"
    using ul_inv_add_edge[OF Cons.prems, of "fst edge" "snd edge"] step by simp
  then show ?case
    using Cons.IH[of g'] step by (cases r) simp_all
qed

lemma ul_inv_add_edges_undo:
  "ul_inv g \<Longrightarrow> ul_inv (snd (ul_add_edges_undo g added_edges))"
proof (induction added_edges arbitrary: g)
  case Nil
  then show ?case by simp
next
  case (Cons edge added_edges)
  obtain r g' where step: "ul_remove_edge g (fst edge) (snd edge) = (r, g')"
    by (cases "ul_remove_edge g (fst edge) (snd edge)")
  have "ul_inv g'"
    using ul_inv_remove_edge[OF Cons.prems, of "fst edge" "snd edge"] step by simp
  then show ?case
    using Cons.IH[of g'] step by (cases r) simp_all
qed

lemma ul_inv_add_edges: "ul_inv g \<Longrightarrow> ul_inv (snd (ul_add_edges g edges))"
proof -
  assume inv: "ul_inv g"
  obtain r g' added where t: "ul_add_edges_try g edges [] = (r, g', added)"
    by (cases "ul_add_edges_try g edges []")
  have inv': "ul_inv g'"
    using ul_inv_add_edges_try[OF inv, of edges "[]"] t by simp
  obtain r2 g2 where u: "ul_add_edges_undo g' added = (r2, g2)"
    by (cases "ul_add_edges_undo g' added")
  have "ul_inv g2"
    using ul_inv_add_edges_undo[OF inv', of added] u by simp
  with inv' t u show ?thesis
    by (cases r; cases r2) (simp_all add: ul_add_edges_def)
qed

lemma ul_inv_get_children: "ul_inv g \<Longrightarrow> ul_inv (snd (ul_get_children g v))"
  by (auto simp: ul_get_children_def ul_inv_def keys_touch)

lemma ul_reachable_inv: "ul_reachable g \<Longrightarrow> ul_inv g"
  by (induction rule: ul_reachable.induct)
    (simp_all add: ul_inv_init ul_has_vertex_def ul_inv_get_edge_weight ul_inv_add_vertex
      ul_inv_add_vertices ul_inv_remove_vertex ul_inv_set_edge_weight ul_inv_add_edge
      ul_inv_add_edges ul_inv_remove_edge ul_inv_has_edge ul_inv_get_children
      ul_get_parents_def)

lemma ul_set_then_get:
  assumes "u \<in> ul_vertices g" "v \<in> ul_vertices g"
  shows "fst (ul_set_edge_weight g u v weight) = Inr ()"
    and "fst (ul_has_edge (snd (ul_set_edge_weight g u v weight)) u v) = Inr weight"
    and "fst (ul_get_edge_weight (snd (ul_set_edge_weight g u v weight)) u v) = Inr weight"
proof -
  show "fst (ul_set_edge_weight g u v weight) = Inr ()"
    using assms by (simp add: ul_set_edge_weight_def Let_def)
  show e: "fst (ul_has_edge (snd (ul_set_edge_weight g u v weight)) u v) = Inr weight"
    using assms
    by (auto simp: ul_set_edge_weight_def ul_remove_edge_def ul_has_edge_def Let_def
        subscript_update subscript_touch)
  have "ul_vertices (snd (ul_set_edge_weight g u v weight)) = ul_vertices g"
    by (simp add: ul_set_edge_weight_def ul_remove_edge_def ul_has_edge_def Let_def)
  with assms e show "fst (ul_get_edge_weight (snd (ul_set_edge_weight g u v weight)) u v) = Inr weight"
    by (simp add: ul_get_edge_weight_def)
qed

lemma ul_remove_missing_edge:
  assumes "ul_inv g" "u \<in> ul_vertices g" "v \<in> ul_vertices g"
    and "fst (ul_has_edge g u v) = Inr False"
  shows "ul_remove_edge g u v = (Inl EdgeNotFound, g)"
  using assms ul_touch_vertex[of g u]
  by (simp add: ul_remove_edge_def ul_has_edge_def Let_def)



lemma ul_get_edge_weight_unknown:
  "\<not> (u \<in> ul_vertices g \<and> v \<in> ul_vertices g) \<Longrightarrow>
   ul_get_edge_weight g u v = (Inl UnknownVertex, g)"
  by (simp add: ul_get_edge_weight_def)

section \<open>The adjacency matrix: vertices and their indices\<close>

lemma am_keyed_and_then:
  assumes "am_keyed (snd r)" and "\<And>a s. am_keyed s \<Longrightarrow> am_keyed (snd (f a s))"
  shows "am_keyed (snd (and_then r f))"
  using assms by (cases r) (auto simp: and_then_def split: sum.splits)

lemma and_then_same:
  assumes "snd r = g" and "\<And>a. snd (f a g) = g"
  shows "snd (and_then r f) = g"
  using assms by (cases r) (auto simp: and_then_def split: sum.splits)

lemma keys_fold_zip:
  "length is = length vs \<Longrightarrow>
   Mapping.keys (fold (\<lambda>(i, v) m. Mapping.update v i m) (zip is vs) m) = Mapping.keys m \<union> set vs"
  by (induction "is" vs arbitrary: m rule: list_induct2) auto

lemma am_keyed_init: "distinct vs \<Longrightarrow> am_keyed (am_init directed vs)"
  by (simp add: am_keyed_def am_init_def keys_fold_zip)

lemma am_get_vertex_int_same: "am_keyed g \<Longrightarrow> snd (am_get_vertex_int g v) = g"
  by (auto simp: am_get_vertex_int_def am_keyed_def touch_known)

lemma am_keyed_get_vertex_int: "am_keyed g \<Longrightarrow> am_keyed (snd (am_get_vertex_int g v))"
  by (simp add: am_get_vertex_int_same)

lemma am_keyed_has_vertex: "am_keyed g \<Longrightarrow> am_keyed (snd (am_has_vertex g v))"
  by (simp add: am_has_vertex_def)

lemma am_has_edge_same: "am_keyed g \<Longrightarrow> snd (am_has_edge g u v) = g"
  unfolding am_has_edge_def
  by (intro and_then_same am_get_vertex_int_same) (auto split: sum.splits)

lemma am_get_edge_weight_same: "am_keyed g \<Longrightarrow> snd (am_get_edge_weight g u v) = g"
  unfolding am_get_edge_weight_def
  by (intro and_then_same am_get_vertex_int_same) (auto split: sum.splits option.splits)

lemma am_children_list_same: "am_keyed g \<Longrightarrow> snd (am_children_list g v) = g"
  unfolding am_children_list_def
  by (intro and_then_same am_get_vertex_int_same) auto

lemma am_parents_list_same: "am_keyed g \<Longrightarrow> snd (am_parents_list g v) = g"
  unfolding am_parents_list_def
  by (intro and_then_same am_get_vertex_int_same) auto

lemma am_get_children_same: "am_keyed g \<Longrightarrow> snd (am_get_children g v) = g"
  unfolding am_get_children_def
  by (intro and_then_same am_children_list_same) auto

lemma am_get_parents_same: "am_keyed g \<Longrightarrow> snd (am_get_parents g v) = g"
  unfolding am_get_parents_def
  by (intro and_then_same am_parents_list_same) auto

lemma am_keyed_add_vertex: "am_keyed g \<Longrightarrow> am_keyed (snd (am_add_vertex g v))"
  by (auto simp: am_add_vertex_def am_keyed_def Let_def)

lemma am_keyed_add_vertices:
  "am_keyed g \<Longrightarrow> distinct vs \<Longrightarrow> am_keyed (snd (am_add_vertices g vs))"
  by (auto simp: am_add_vertices_def am_keyed_def Let_def keys_fold_zip list_ex_iff)

lemma am_keyed_set_edge_weight:
  "am_keyed g \<Longrightarrow> am_keyed (snd (am_set_edge_weight g u v weight))"
  unfolding am_set_edge_weight_def
  by (intro am_keyed_and_then am_keyed_get_vertex_int) (auto simp: Let_def am_keyed_def)

lemma am_keyed_remove_edge: "am_keyed g \<Longrightarrow> am_keyed (snd (am_remove_edge g u v))"
  unfolding am_remove_edge_def
  by (intro am_keyed_and_then am_keyed_get_vertex_int)
    (auto simp: Let_def am_keyed_def split: sum.splits option.splits)

lemma am_keyed_erase_weights:
  "am_keyed g \<Longrightarrow> am_keyed (snd (am_erase_weights g keys_of xs))"
proof (induction xs arbitrary: g)
  case Nil
  then show ?case by simp
next
  case (Cons x xs)
  show ?case
    unfolding am_erase_weights.simps
  proof (intro am_keyed_and_then)
    show "am_keyed (snd (am_get_vertex_int g x))"
      using Cons.prems by (rule am_keyed_get_vertex_int)
  next
    fix a s
    assume "am_keyed (s :: ('a, 'b) am_graph)"
    then have "am_keyed (s\<lparr>am_edge_weights := fold Mapping.delete (keys_of a) (am_edge_weights s)\<rparr>)"
      by (simp add: am_keyed_def)
    then show "am_keyed (snd (am_erase_weights
        (s\<lparr>am_edge_weights := fold Mapping.delete (keys_of a) (am_edge_weights s)\<rparr>) keys_of xs))"
      by (rule Cons.IH)
  qed
qed

lemma am_keyed_children_list: "am_keyed g \<Longrightarrow> am_keyed (snd (am_children_list g v))"
  by (simp add: am_children_list_same)

lemma am_keyed_parents_list: "am_keyed g \<Longrightarrow> am_keyed (snd (am_parents_list g v))"
  by (simp add: am_parents_list_same)

lemma am_keyed_remove_tail:
  assumes "am_keyed g"
  shows "am_keyed (snd (if \<not> v_index < length (am_adjacency_matrix g) then (Inl OutOfRange, g)
          else
            let rows = erase_at v_index (am_adjacency_matrix g) in
            case am_erase_column v_index rows [0 ..< length (am_vertices g)] of
              Inl e \<Rightarrow> (Inl e, g\<lparr>am_adjacency_matrix := rows\<rparr>)
            | Inr M \<Rightarrow>
                (Inr (),
                 g\<lparr>am_adjacency_matrix := M,
                    am_vertices := remove1 v (am_vertices g),
                    am_vertex_indices := Mapping.delete v (am_vertex_indices g)\<rparr>)))"
  using assms by (auto simp: am_keyed_def Let_def split: sum.splits)

lemma am_keyed_remove_vertex: "am_keyed g \<Longrightarrow> am_keyed (snd (am_remove_vertex g v))"
  unfolding am_remove_vertex_def
proof (intro am_keyed_and_then)
  assume "am_keyed g"
  then show "am_keyed (snd (am_get_vertex_int g v))" by (rule am_keyed_get_vertex_int)
next
  fix a and s :: "('a, 'b) am_graph"
  assume k: "am_keyed s"
  show "am_keyed (snd (if am_directed s
        then and_then (am_children_list s v) (\<lambda>children g2.
          and_then (am_erase_weights g2 (\<lambda>neighbor_index. [(a, neighbor_index)]) children)
            (\<lambda>_ g3.
          and_then (am_parents_list g3 v) (\<lambda>parents g4.
            am_erase_weights g4 (\<lambda>neighbor_index. [(neighbor_index, a)]) parents)))
        else and_then (am_children_list s v) (\<lambda>children g2.
            am_erase_weights g2
              (\<lambda>neighbor_index. [(a, neighbor_index), (neighbor_index, a)]) children)))"
    using k
    by (auto intro!: am_keyed_and_then am_keyed_erase_weights am_keyed_children_list
        am_keyed_parents_list)
next
  fix a aa and s :: "('a, 'b) am_graph"
  assume "am_keyed s"
  then show "am_keyed (snd (if \<not> a < length (am_adjacency_matrix s) then (Inl OutOfRange, s)
          else
            let rows = erase_at a (am_adjacency_matrix s) in
            case am_erase_column a rows [0 ..< length (am_vertices s)] of
              Inl e \<Rightarrow> (Inl e, s\<lparr>am_adjacency_matrix := rows\<rparr>)
            | Inr M \<Rightarrow>
                (Inr (),
                 s\<lparr>am_adjacency_matrix := M,
                    am_vertices := remove1 v (am_vertices s),
                    am_vertex_indices := Mapping.delete v (am_vertex_indices s)\<rparr>)))"
    by (rule am_keyed_remove_tail)
qed

lemma am_reachable_keyed: "am_reachable g \<Longrightarrow> am_keyed g"
  by (induction rule: am_reachable.induct)
    (simp_all add: am_keyed_init am_keyed_has_vertex am_get_edge_weight_same am_keyed_add_vertex
      am_keyed_add_vertices am_keyed_remove_vertex am_keyed_set_edge_weight am_keyed_remove_edge
      am_has_edge_same am_get_children_same am_get_parents_same)


section \<open>The adjacency matrix: a well-formed matrix\<close>

lemma lookup_fold_pairs_other:
  "x \<notin> snd ` set ps \<Longrightarrow>
   Mapping.lookup (fold (\<lambda>(i, v) m. Mapping.update v i m) ps m) x = Mapping.lookup m x"
  by (induction ps arbitrary: m) auto

lemma lookup_fold_zip_upt:
  "distinct vs \<Longrightarrow> i < length vs \<Longrightarrow>
   Mapping.lookup (fold (\<lambda>(i, v) m. Mapping.update v i m) (zip [k ..< k + length vs] vs) m) (vs ! i)
     = Some (k + i)"
proof (induction vs arbitrary: k m i)
  case Nil
  then show ?case by simp
next
  case (Cons x xs)
  have z: "zip [k ..< k + length (x # xs)] (x # xs) = (k, x) # zip [Suc k ..< Suc k + length xs] xs"
    by (simp add: upt_rec)
  show ?case
  proof (cases i)
    case 0
    have "x \<notin> snd ` set (zip [Suc k ..< Suc k + length xs] xs)"
      using Cons.prems by (auto dest: set_zip_rightD)
    from lookup_fold_pairs_other[OF this] 0 z show ?thesis by simp
  next
    case (Suc j)
    with Cons.prems have "j < length xs" "distinct xs" by auto
    from Cons.IH[OF this(2) this(1), of "Suc k"] Suc z show ?thesis by simp
  qed
qed

lemma am_wf_init: "distinct vs \<Longrightarrow> am_wf (am_init directed vs)"
proof -
  assume d: "distinct vs"
  have "\<forall>v \<in> set vs. \<exists>i < length vs. Mapping.lookup
      (fold (\<lambda>(i, v) m. Mapping.update v i m) (zip [0 ..< length vs] vs) Mapping.empty) v = Some i"
  proof
    fix v assume "v \<in> set vs"
    then obtain i where i: "i < length vs" "vs ! i = v" by (auto simp: in_set_conv_nth)
    from lookup_fold_zip_upt[OF d i(1), of 0 Mapping.empty] i
    show "\<exists>i < length vs. Mapping.lookup
      (fold (\<lambda>(i, v) m. Mapping.update v i m) (zip [0 ..< length vs] vs) Mapping.empty) v = Some i"
      by auto
  qed
  then show ?thesis
    by (auto simp: am_wf_def am_init_def list_all_iff)
qed

lemma am_wf_index:
  assumes "am_wf g" "v \<in> set (am_vertices g)"
  shows "am_get_vertex_int g v = (Inr (subscript (am_vertex_indices g) v 0), g)"
    and "subscript (am_vertex_indices g) v 0 < length (am_vertices g)"
proof -
  from assms obtain i where i: "Mapping.lookup (am_vertex_indices g) v = Some i"
    "i < length (am_vertices g)"
    by (auto simp: am_wf_def list_all_iff split: option.splits)
  then show "am_get_vertex_int g v = (Inr (subscript (am_vertex_indices g) v 0), g)"
    using assms(2) by (simp add: am_get_vertex_int_def touch_def)
  from i show "subscript (am_vertex_indices g) v 0 < length (am_vertices g)"
    by (simp add: subscript_def)
qed

lemma am_wf_in_range:
  "am_wf g \<Longrightarrow> i < length (am_vertices g) \<Longrightarrow> j < length (am_vertices g) \<Longrightarrow>
   in_range (am_adjacency_matrix g) i j"
  by (auto simp: am_wf_def in_range_def list_all_iff)

lemma in_range_set_cell: "in_range (set_cell M a b x) i j = in_range M i j"
  by (cases "a = i") (auto simp: in_range_def set_cell_def)

lemma cell_set_cell: "in_range M i j \<Longrightarrow> cell (set_cell M i j x) i j = Inr x"
  by (simp add: cell_def in_range_set_cell) (simp add: set_cell_def in_range_def)

lemma cell_set_cell_other:
  "(a, b) \<noteq> (i, j) \<Longrightarrow> cell (set_cell M a b x) i j = cell M i j"
  by (cases "a = i") (auto simp: cell_def in_range_set_cell, auto simp: set_cell_def in_range_def)

lemma am_wf_set_cell:
  assumes "am_wf g"
  shows "am_wf (g\<lparr>am_adjacency_matrix := set_cell (am_adjacency_matrix g) i j x\<rparr>)"
proof -
  let ?M = "am_adjacency_matrix g" and ?n = "length (am_vertices g)"
  have rows: "\<forall>row \<in> set ?M. length row = ?n"
    using assms by (simp add: am_wf_def list_all_iff)
  have "length row = ?n" if "row \<in> set (set_cell ?M i j x)" for row
  proof (cases "i < length ?M")
    case True
    then have "?M ! i \<in> set ?M" by simp
    with rows have "length ((?M ! i)[j := x]) = ?n" by simp
    moreover have "row \<in> insert ((?M ! i)[j := x]) (set ?M)"
      using that set_update_subset_insert[of ?M i "(?M ! i)[j := x]"]
      by (auto simp: set_cell_def)
    ultimately show ?thesis using rows by auto
  next
    case False
    then have "set_cell ?M i j x = ?M" by (simp add: set_cell_def list_update_beyond)
    with that rows show ?thesis by simp
  qed
  then show ?thesis
    using assms by (simp add: am_wf_def list_all_iff set_cell_def cong: option.case_cong)
qed

text \<open>
  The edge operations keep a well-formed matrix well formed, whatever they return.
\<close>

lemma am_wf_and_then:
  assumes "am_wf (snd r)" and "\<And>a s. am_wf s \<Longrightarrow> am_wf (snd (f a s))"
  shows "am_wf (snd (and_then r f))"
  using assms by (cases r) (auto simp: and_then_def split: sum.splits)

lemma am_wf_get_vertex_int: "am_wf g \<Longrightarrow> am_wf (snd (am_get_vertex_int g v))"
  using am_wf_index(1)[of g v] by (cases "v \<in> set (am_vertices g)") (simp_all add: am_get_vertex_int_def)

lemma am_wf_set_edge_weight: "am_wf g \<Longrightarrow> am_wf (snd (am_set_edge_weight g u v weight))"
  unfolding am_set_edge_weight_def
proof (intro am_wf_and_then)
  fix a b and s :: "('a, 'b) am_graph"
  assume wf: "am_wf s"
  let ?s3 = "s\<lparr>am_edge_weights := Mapping.update (b, a) weight (am_edge_weights s)\<rparr>"
  let ?s4 = "?s3\<lparr>am_adjacency_matrix := set_cell (am_adjacency_matrix ?s3) b a (Some (b, a))\<rparr>"
  let ?s5 = "?s4\<lparr>am_edge_weights := Mapping.update (a, b) weight (am_edge_weights ?s4)\<rparr>"
  have 3: "am_wf ?s3" using wf by (simp add: am_wf_def cong: option.case_cong)
  have 4: "am_wf ?s4" using 3 by (rule am_wf_set_cell)
  have 5: "am_wf ?s5" using 4 by (simp add: am_wf_def cong: option.case_cong)
  have 6: "am_wf (?s5\<lparr>am_adjacency_matrix := set_cell (am_adjacency_matrix ?s5) a b (Some (a, b))\<rparr>)"
    using 5 by (rule am_wf_set_cell)
  show "am_wf (snd (let g3 = s\<lparr>am_edge_weights := Mapping.update (b, a) weight (am_edge_weights s)\<rparr>
       in if \<not> in_range (am_adjacency_matrix g3) b a then (Inl OutOfRange, g3)
          else
            let g4 = g3\<lparr>am_adjacency_matrix :=
                          set_cell (am_adjacency_matrix g3) b a (Some (b, a))\<rparr>
            in if am_directed g4 then (Inr (), g4)
               else
                 let g5 = g4\<lparr>am_edge_weights :=
                               Mapping.update (a, b) weight (am_edge_weights g4)\<rparr>
                 in if \<not> in_range (am_adjacency_matrix g5) a b then (Inl OutOfRange, g5)
                    else (Inr (),
                          g5\<lparr>am_adjacency_matrix :=
                               set_cell (am_adjacency_matrix g5) a b
                                 (Some (a, b))\<rparr>)))"
    using 3 4 5 6 unfolding Let_def by (auto split: if_splits)
qed (auto intro: am_wf_get_vertex_int)

lemma am_wf_remove_edge: "am_wf g \<Longrightarrow> am_wf (snd (am_remove_edge g u v))"
  unfolding am_remove_edge_def
proof (intro am_wf_and_then)
  fix a b and s :: "('a, 'b) am_graph"
  assume wf: "am_wf s"
  let ?s3 = "s\<lparr>am_edge_weights := Mapping.delete (b, a) (am_edge_weights s),
               am_adjacency_matrix := set_cell (am_adjacency_matrix s) b a None\<rparr>"
  let ?s4 = "?s3\<lparr>am_edge_weights := Mapping.delete (a, b) (am_edge_weights ?s3)\<rparr>"
  have "am_wf (s\<lparr>am_adjacency_matrix := set_cell (am_adjacency_matrix s) b a None\<rparr>)"
    using wf by (rule am_wf_set_cell)
  then have 3: "am_wf ?s3" by (simp add: am_wf_def cong: option.case_cong)
  have 4: "am_wf ?s4" using 3 by (simp add: am_wf_def cong: option.case_cong)
  have 5: "am_wf (?s4\<lparr>am_adjacency_matrix := set_cell (am_adjacency_matrix ?s4) a b None\<rparr>)"
    using 4 by (rule am_wf_set_cell)
  show "am_wf (snd (case cell (am_adjacency_matrix s) b a of
         Inl e \<Rightarrow> (Inl e, s)
       | Inr None \<Rightarrow> (Inr (), s)
       | Inr (Some key) \<Rightarrow>
           (let g3 = s\<lparr>am_edge_weights := Mapping.delete (b, a) (am_edge_weights s),
                        am_adjacency_matrix :=
                          set_cell (am_adjacency_matrix s) b a None\<rparr>
            in if am_directed g3 then (Inr (), g3)
               else
                 let g4 = g3\<lparr>am_edge_weights :=
                               Mapping.delete (a, b) (am_edge_weights g3)\<rparr>
                 in if \<not> in_range (am_adjacency_matrix g4) a b then (Inl OutOfRange, g4)
                    else (Inr (),
                          g4\<lparr>am_adjacency_matrix :=
                               set_cell (am_adjacency_matrix g4) a b None\<rparr>))))"
    using wf 3 4 5 unfolding Let_def
    by (auto split: if_splits sum.splits option.splits)
qed (auto intro: am_wf_get_vertex_int)

lemma am_keyed_index:
  "am_keyed g \<Longrightarrow> v \<in> set (am_vertices g) \<Longrightarrow>
   am_get_vertex_int g v = (Inr (subscript (am_vertex_indices g) v 0), g)"
  by (auto simp: am_get_vertex_int_def am_keyed_def touch_known)

lemma am_set_edge_weight_returns:
  assumes k: "am_keyed g" and u: "u \<in> set (am_vertices g)" and v: "v \<in> set (am_vertices g)"
  shows "(fst (am_set_edge_weight g u v weight) = Inr ()) = am_has_cells g u v"
    and "fst (am_set_edge_weight g u v weight) = Inr () \<or>
         fst (am_set_edge_weight g u v weight) = Inl OutOfRange"
  by (auto simp: am_set_edge_weight_def and_then_def am_keyed_index[OF k u] am_keyed_index[OF k v]
      Let_def in_range_set_cell am_has_cells_def)

lemma am_set_then_get:
  assumes k: "am_keyed g" and u: "u \<in> set (am_vertices g)" and v: "v \<in> set (am_vertices g)"
    and c: "am_has_cells g u v"
  shows "fst (am_has_edge (snd (am_set_edge_weight g u v weight)) u v) = Inr True"
    and "fst (am_get_edge_weight (snd (am_set_edge_weight g u v weight)) u v) = Inr weight"
proof -
  let ?i = "subscript (am_vertex_indices g) u 0" and ?j = "subscript (am_vertex_indices g) v 0"
  let ?g' = "snd (am_set_edge_weight g u v weight)"
  let ?M = "am_adjacency_matrix g"
  have iu: "am_get_vertex_int g u = (Inr ?i, g)" and iv: "am_get_vertex_int g v = (Inr ?j, g)"
    using am_keyed_index[OF k] u v by auto
  have r: "in_range ?M ?i ?j" and r': "\<not> am_directed g \<Longrightarrow> in_range ?M ?j ?i"
    using c by (auto simp: am_has_cells_def)
  have res: "am_set_edge_weight g u v weight =
      (Inr (),
       if am_directed g
       then g\<lparr>am_edge_weights := Mapping.update (?i, ?j) weight (am_edge_weights g),
              am_adjacency_matrix := set_cell ?M ?i ?j (Some (?i, ?j))\<rparr>
       else g\<lparr>am_edge_weights :=
                Mapping.update (?j, ?i) weight (Mapping.update (?i, ?j) weight (am_edge_weights g)),
              am_adjacency_matrix :=
                set_cell (set_cell ?M ?i ?j (Some (?i, ?j))) ?j ?i (Some (?j, ?i))\<rparr>)"
    using r r' by (simp add: am_set_edge_weight_def and_then_def iu iv Let_def in_range_set_cell)
  have k': "am_keyed ?g'" using k by (rule am_keyed_set_edge_weight)
  have verts: "am_vertices ?g' = am_vertices g" "am_vertex_indices ?g' = am_vertex_indices g"
    by (simp_all add: res)
  have iu': "am_get_vertex_int ?g' u = (Inr ?i, ?g')" and iv': "am_get_vertex_int ?g' v = (Inr ?j, ?g')"
    using am_keyed_index[OF k', of u] am_keyed_index[OF k', of v] u v verts by auto
  have c: "\<exists>key. cell (am_adjacency_matrix ?g') ?i ?j = Inr (Some key) \<and>
       Mapping.lookup (am_edge_weights ?g') key = Some weight"
  proof (cases "am_directed g")
    case True
    then show ?thesis using r by (simp add: res cell_set_cell)
  next
    case False
    show ?thesis
    proof (cases "?j = ?i")
      case True
      with False r show ?thesis by (simp add: res cell_set_cell in_range_set_cell)
    next
      case ne: False
      then have "(?j, ?i) \<noteq> (?i, ?j)" by simp
      with False r ne show ?thesis
        by (simp add: res cell_set_cell cell_set_cell_other Mapping.lookup_update')
    qed
  qed
  then show "fst (am_has_edge ?g' u v) = Inr True"
    by (auto simp: am_has_edge_def and_then_def iu' iv')
  from c show "fst (am_get_edge_weight ?g' u v) = Inr weight"
    by (auto simp: am_get_edge_weight_def and_then_def iu' iv')
qed

lemma am_wf_has_cells:
  "am_wf g \<Longrightarrow> u \<in> set (am_vertices g) \<Longrightarrow> v \<in> set (am_vertices g) \<Longrightarrow> am_has_cells g u v"
  using am_wf_in_range[of g] am_wf_index(2)[of g] by (simp add: am_has_cells_def)

lemma am_remove_missing_edge:
  assumes "am_keyed g" and "fst (am_has_edge g u v) = Inr False"
  shows "am_remove_edge g u v = (Inr (), g)"
proof -
  have u: "u \<in> set (am_vertices g)" and v: "v \<in> set (am_vertices g)"
    using assms(2)
    by (auto simp: am_has_edge_def am_get_vertex_int_def and_then_def split: if_splits)
  let ?i = "subscript (am_vertex_indices g) u 0" and ?j = "subscript (am_vertex_indices g) v 0"
  have iu: "am_get_vertex_int g u = (Inr ?i, g)" and iv: "am_get_vertex_int g v = (Inr ?j, g)"
    using assms(1) u v
    by (auto simp: am_get_vertex_int_def am_keyed_def touch_known)
  have h: "fst (case cell (am_adjacency_matrix g) ?i ?j of
         Inl e \<Rightarrow> (Inl e, g)
       | Inr weight_ptr \<Rightarrow> (Inr (weight_ptr \<noteq> None), g)) = Inr False"
    using assms(2) by (simp add: am_has_edge_def and_then_def iu iv)
  have "cell (am_adjacency_matrix g) ?i ?j = Inr None"
  proof (cases "cell (am_adjacency_matrix g) ?i ?j")
    case (Inl e)
    with h show ?thesis by simp
  next
    case (Inr c)
    with h have "c = None" by (cases c) simp_all
    with Inr show ?thesis by simp
  qed
  then show ?thesis
    by (simp add: am_remove_edge_def and_then_def iu iv)
qed

section \<open>Adding a batch of vertices\<close>

lemma wl_add_vertices_cases:
  "list_ex (\<lambda>v. fst (wl_has_vertex g v) = Inr True) vs \<Longrightarrow>
     wl_add_vertices g vs = (Inl DuplicateVertex, g)"
  "\<not> list_ex (\<lambda>v. fst (wl_has_vertex g v) = Inr True) vs \<Longrightarrow>
     fst (wl_add_vertices g vs) = Inr () \<and>
     list_all (\<lambda>v. fst (wl_has_vertex (snd (wl_add_vertices g vs)) v) = Inr True) vs"
  by (simp_all add: wl_add_vertices_def wl_has_vertex_def list_all_iff)

lemma ul_add_vertices_cases:
  "list_ex (\<lambda>v. fst (ul_has_vertex g v) = Inr True) vs \<Longrightarrow>
     ul_add_vertices g vs = (Inl DuplicateVertex, g)"
  "\<not> list_ex (\<lambda>v. fst (ul_has_vertex g v) = Inr True) vs \<Longrightarrow>
     fst (ul_add_vertices g vs) = Inr () \<and>
     list_all (\<lambda>v. fst (ul_has_vertex (snd (ul_add_vertices g vs)) v) = Inr True) vs"
  by (simp_all add: ul_add_vertices_def ul_has_vertex_def list_all_iff)

lemma am_add_vertices_cases:
  "list_ex (\<lambda>v. fst (am_has_vertex g v) = Inr True) vs \<Longrightarrow>
     am_add_vertices g vs = (Inl DuplicateVertex, g)"
  "\<not> list_ex (\<lambda>v. fst (am_has_vertex g v) = Inr True) vs \<Longrightarrow>
     \<not> (am_vertices g = [] \<and> vs = []) \<Longrightarrow>
     fst (am_add_vertices g vs) = Inr () \<and>
     list_all (\<lambda>v. fst (am_has_vertex (snd (am_add_vertices g vs)) v) = Inr True) vs"
  "fst (am_add_vertices g vs) = Inl DuplicateVertex \<Longrightarrow>
     list_ex (\<lambda>v. fst (am_has_vertex g v) = Inr True) vs"
  "fst (am_add_vertices g vs) = Inr () \<Longrightarrow>
     list_all (\<lambda>v. fst (am_has_vertex (snd (am_add_vertices g vs)) v) = Inr True) vs"
  by (auto simp: am_add_vertices_def am_has_vertex_def list_all_iff Let_def split: if_splits)

section \<open>The claims\<close>

text \<open>
  C1 (amended). Immediately after \<^verbatim>\<open>set_edge_weight(u, v, w)\<close> on two vertices of the
  graph, \<^verbatim>\<open>get_edge_weight(u, v)\<close> returns \<open>w\<close> in every backend and directedness.
  \<^verbatim>\<open>has_edge(u, v)\<close> returns true in the weighted list and in the matrix; in the
  unweighted list it returns \<open>w\<close> itself, since setting \<^verbatim>\<open>false\<close> removes the edge.
  This holds in every reachable state of each backend. In the matrix the call returns
  exactly when the matrix has the cell of \<open>(u, v)\<close>, and of \<open>(v, u)\<close> when the graph is
  undirected; a matrix as the constructor builds it has the cells of every pair of
  vertices.
\<close>

theorem set_edge_weight_then_query:
  "(wl_reachable g \<and> u \<in> wl_vertices g \<and> v \<in> wl_vertices g \<longrightarrow>
      fst (wl_set_edge_weight g u v w) = Inr () \<and>
      fst (wl_has_edge (snd (wl_set_edge_weight g u v w)) u v) = Inr True \<and>
      fst (wl_get_edge_weight (snd (wl_set_edge_weight g u v w)) u v) = Inr w) \<and>
   (p \<in> ul_vertices h \<and> q \<in> ul_vertices h \<longrightarrow>
      fst (ul_set_edge_weight h p q b) = Inr () \<and>
      fst (ul_has_edge (snd (ul_set_edge_weight h p q b)) p q) = Inr b \<and>
      fst (ul_get_edge_weight (snd (ul_set_edge_weight h p q b)) p q) = Inr b) \<and>
   (am_reachable m \<and> x \<in> set (am_vertices m) \<and> y \<in> set (am_vertices m) \<longrightarrow>
      (fst (am_set_edge_weight m x y c) = Inr ()) = am_has_cells m x y \<and>
      (am_has_cells m x y \<longrightarrow>
         fst (am_has_edge (snd (am_set_edge_weight m x y c)) x y) = Inr True \<and>
         fst (am_get_edge_weight (snd (am_set_edge_weight m x y c)) x y) = Inr c)) \<and>
   (distinct xs \<and> x' \<in> set xs \<and> y' \<in> set xs \<longrightarrow>
      am_reachable (am_init d xs :: ('c, 'd) am_graph) \<and>
      am_has_cells (am_init d xs :: ('c, 'd) am_graph) x' y')"
proof -
  have wl: "fst (wl_set_edge_weight g u v w) = Inr () \<and>
      fst (wl_has_edge (snd (wl_set_edge_weight g u v w)) u v) = Inr True \<and>
      fst (wl_get_edge_weight (snd (wl_set_edge_weight g u v w)) u v) = Inr w"
    if "wl_reachable g" "u \<in> wl_vertices g" "v \<in> wl_vertices g"
    using wl_set_then_get[OF wl_reachable_inv[OF that(1)] that(2,3)] by simp
  have ul: "fst (ul_set_edge_weight h p q b) = Inr () \<and>
      fst (ul_has_edge (snd (ul_set_edge_weight h p q b)) p q) = Inr b \<and>
      fst (ul_get_edge_weight (snd (ul_set_edge_weight h p q b)) p q) = Inr b"
    if "p \<in> ul_vertices h" "q \<in> ul_vertices h"
    using ul_set_then_get[OF that] by simp
  have am: "(fst (am_set_edge_weight m x y c) = Inr ()) = am_has_cells m x y \<and>
      (am_has_cells m x y \<longrightarrow>
         fst (am_has_edge (snd (am_set_edge_weight m x y c)) x y) = Inr True \<and>
         fst (am_get_edge_weight (snd (am_set_edge_weight m x y c)) x y) = Inr c)"
    if "am_reachable m" "x \<in> set (am_vertices m)" "y \<in> set (am_vertices m)"
    using am_set_edge_weight_returns(1)[OF am_reachable_keyed[OF that(1)] that(2,3)]
      am_set_then_get[OF am_reachable_keyed[OF that(1)] that(2,3)]
    by simp
  have init: "am_reachable (am_init d xs :: ('c, 'd) am_graph) \<and>
      am_has_cells (am_init d xs :: ('c, 'd) am_graph) x' y'"
    if "distinct xs" "x' \<in> set xs" "y' \<in> set xs"
  proof
    show "am_reachable (am_init d xs :: ('c, 'd) am_graph)"
      using that(1) by (rule am_reachable.am_init)
    have "am_vertices (am_init d xs :: ('c, 'd) am_graph) = xs"
      by (simp add: am_init_def)
    with that show "am_has_cells (am_init d xs :: ('c, 'd) am_graph) x' y'"
      by (intro am_wf_has_cells am_wf_init) simp_all
  qed
  from wl ul am init show ?thesis by blast
qed

theorem set_edge_weight_then_query_witness:
  "wl_reachable (wl_init False [1::nat, 2] :: (nat, int) wl_graph) \<and>
   1 \<in> wl_vertices (wl_init False [1::nat, 2] :: (nat, int) wl_graph) \<and>
   2 \<in> wl_vertices (wl_init False [1::nat, 2] :: (nat, int) wl_graph) \<and>
   fst (wl_has_edge (snd (wl_set_edge_weight (wl_init False [1::nat, 2]) 1 2 (5::int))) 1 2)
     = Inr True \<and>
   fst (wl_get_edge_weight (snd (wl_set_edge_weight (wl_init False [1::nat, 2]) 1 2 (5::int))) 1 2)
     = Inr 5 \<and>
   1 \<in> ul_vertices (ul_init False [1::nat, 2]) \<and>
   2 \<in> ul_vertices (ul_init False [1::nat, 2]) \<and>
   fst (ul_has_edge (snd (ul_set_edge_weight (ul_init False [1::nat, 2]) 1 2 True)) 1 2)
     = Inr True \<and>
   fst (ul_get_edge_weight (snd (ul_set_edge_weight (ul_init False [1::nat, 2]) 1 2 True)) 1 2)
     = Inr True \<and>
   am_reachable (snd (am_add_vertex (am_init True [1::nat] :: (nat, int) am_graph) 2)) \<and>
   2 \<in> set (am_vertices (snd (am_add_vertex (am_init True [1::nat] :: (nat, int) am_graph) 2))) \<and>
   1 \<in> set (am_vertices (snd (am_add_vertex (am_init True [1::nat] :: (nat, int) am_graph) 2))) \<and>
   am_has_cells (snd (am_add_vertex (am_init True [1::nat] :: (nat, int) am_graph) 2)) 2 1 \<and>
   fst (am_set_edge_weight (snd (am_add_vertex (am_init True [1::nat]) 2)) 2 1 (7::int)) = Inr () \<and>
   fst (am_has_edge
     (snd (am_set_edge_weight (snd (am_add_vertex (am_init True [1::nat]) 2)) 2 1 (7::int))) 2 1)
     = Inr True \<and>
   fst (am_get_edge_weight
     (snd (am_set_edge_weight (snd (am_add_vertex (am_init True [1::nat]) 2)) 2 1 (7::int))) 2 1)
     = Inr 7 \<and>
   distinct [1::nat, 2] \<and>
   am_has_cells (am_init False [1::nat, 2] :: (nat, int) am_graph) 1 2"
proof -
  have g: "wl_reachable (wl_init False [1::nat, 2] :: (nat, int) wl_graph)"
    by (rule wl_reachable.wl_init)
  have gv: "1 \<in> wl_vertices (wl_init False [1::nat, 2] :: (nat, int) wl_graph)"
    "2 \<in> wl_vertices (wl_init False [1::nat, 2] :: (nat, int) wl_graph)"
    by (simp_all add: wl_init_def)
  have hv: "1 \<in> ul_vertices (ul_init False [1::nat, 2])" "2 \<in> ul_vertices (ul_init False [1::nat, 2])"
    by (simp_all add: ul_init_def)
  have m: "am_reachable (snd (am_add_vertex (am_init True [1::nat] :: (nat, int) am_graph) 2))"
    by (rule am_reachable.am_add_vertex, rule am_reachable.am_init) simp
  have mv: "2 \<in> set (am_vertices (snd (am_add_vertex (am_init True [1::nat] :: (nat, int) am_graph) 2)))"
    "1 \<in> set (am_vertices (snd (am_add_vertex (am_init True [1::nat] :: (nat, int) am_graph) 2)))"
    by (simp_all add: am_defs Let_def)
  have mc: "am_has_cells (snd (am_add_vertex (am_init True [1::nat] :: (nat, int) am_graph) 2)) 2 1"
    by (simp add: am_has_cells_def am_defs container_defs Let_def)
  have d: "distinct [1::nat, 2]" "(1::nat) \<in> set [1, 2]" "(2::nat) \<in> set [1, 2]"
    by simp_all
  from g gv hv m mv mc d
    set_edge_weight_then_query[of "wl_init False [1::nat, 2] :: (nat, int) wl_graph" 1 2 5
      1 "ul_init False [1::nat, 2]" 2 True
      "snd (am_add_vertex (am_init True [1::nat] :: (nat, int) am_graph) 2)" 2 1 7
      "[1::nat, 2]" 1 2 False]
  show ?thesis by blast
qed

theorem set_edge_weight_false_counterexample:
  "1 \<in> ul_vertices (ul_init True [1::nat, 2]) \<and> 2 \<in> ul_vertices (ul_init True [1::nat, 2]) \<and>
   fst (ul_set_edge_weight (ul_init True [1::nat, 2]) 1 2 False) = Inr () \<and>
   fst (ul_has_edge (snd (ul_set_edge_weight (ul_init True [1::nat, 2]) 1 2 False)) 1 2)
     = Inr False \<and>
   fst (am_has_vertex (snd (am_add_vertex (am_init True [1::nat] :: (nat, int) am_graph) 2)) 2)
     = Inr True \<and>
   fst (am_set_edge_weight (snd (am_add_vertex (am_init True [1::nat]) 2)) 2 2 (5::int))
     = Inl OutOfRange"
  by (simp add: ul_defs am_defs container_defs Let_def)

text \<open>
  C2. After \<^verbatim>\<open>remove_vertex(v)\<close> the vertex is gone and no remaining vertex has it among
  its edges. The weighted adjacency list does not do this: on the directed graph over
  \<open>{1, 2}\<close> with the one edge \<open>(1, 2)\<close>, \<^verbatim>\<open>remove_vertex(2)\<close> returns and
  \<^verbatim>\<open>has_vertex(2)\<close> is false, but \<^verbatim>\<open>get_children(1)\<close> still is \<open>{2}\<close>, and adding
  vertex 2 again brings the edge \<open>(1, 2)\<close> back.
\<close>

theorem weighted_remove_vertex_keeps_incoming_edges:
  "fst (wl_remove_vertex (snd (wl_set_edge_weight (wl_init True [1::nat, 2]) 1 2 (5::int))) 2)
     = Inr () \<and>
   fst (wl_has_vertex
     (snd (wl_remove_vertex (snd (wl_set_edge_weight (wl_init True [1::nat, 2]) 1 2 (5::int))) 2)) 2)
     = Inr False \<and>
   fst (wl_get_children
     (snd (wl_remove_vertex (snd (wl_set_edge_weight (wl_init True [1::nat, 2]) 1 2 (5::int))) 2)) 1)
     = Inr {2} \<and>
   fst (wl_has_edge
     (snd (wl_add_vertex
       (snd (wl_remove_vertex (snd (wl_set_edge_weight (wl_init True [1::nat, 2]) 1 2 (5::int))) 2))
       2)) 1 2)
     = Inr True"
  by (simp add: wl_defs container_defs Let_def)

text \<open>
  C3. \<^verbatim>\<open>has_edge(u, v)\<close> never fails and answers false for an unknown vertex. The
  adjacency matrix does not: on the graph with the single vertex 1, \<^verbatim>\<open>has_edge(2, 1)\<close>
  and \<^verbatim>\<open>has_edge(1, 2)\<close> throw "Vertex not in graph.".
\<close>

theorem matrix_has_edge_unknown_vertex_throws:
  "am_has_edge (am_init True [1::nat] :: (nat, int) am_graph) 2 1
     = (Inl UnknownVertex, am_init True [1]) \<and>
   am_has_edge (am_init True [1::nat] :: (nat, int) am_graph) 1 2
     = (Inl UnknownVertex, am_init True [1])"
  by (simp add: am_defs container_defs)

text \<open>
  C4 (amended). When both endpoints are vertices and the edge \<open>(u, v)\<close> does not exist,
  \<^verbatim>\<open>remove_edge(u, v)\<close> leaves the graph as it was in every backend. In the two list
  backends it fails with EdgeNotFound; in the matrix backend it does not fail: it writes
  a warning to the error stream and returns.
\<close>

theorem remove_missing_edge:
  "(wl_reachable g \<and> u \<in> wl_vertices g \<and> v \<in> wl_vertices g \<and>
      fst (wl_has_edge g u v) = Inr False \<longrightarrow>
      wl_remove_edge g u v = (Inl EdgeNotFound, g)) \<and>
   (ul_reachable h \<and> p \<in> ul_vertices h \<and> q \<in> ul_vertices h \<and>
      fst (ul_has_edge h p q) = Inr False \<longrightarrow>
      ul_remove_edge h p q = (Inl EdgeNotFound, h)) \<and>
   (am_reachable m \<and> x \<in> set (am_vertices m) \<and> y \<in> set (am_vertices m) \<and>
      fst (am_has_edge m x y) = Inr False \<longrightarrow>
      am_remove_edge m x y = (Inr (), m))"
  using wl_remove_missing_edge[OF wl_reachable_inv, of g u v]
    ul_remove_missing_edge[OF ul_reachable_inv, of h p q]
    am_remove_missing_edge[OF am_reachable_keyed, of m x y]
  by blast

theorem remove_missing_edge_witness:
  "wl_reachable (wl_init False [1::nat, 2] :: (nat, int) wl_graph) \<and>
   fst (wl_has_edge (wl_init False [1::nat, 2] :: (nat, int) wl_graph) 1 2) = Inr False \<and>
   wl_remove_edge (wl_init False [1::nat, 2] :: (nat, int) wl_graph) 1 2
     = (Inl EdgeNotFound, wl_init False [1, 2]) \<and>
   ul_reachable (ul_init False [1::nat, 2]) \<and>
   fst (ul_has_edge (ul_init False [1::nat, 2]) 1 2) = Inr False \<and>
   ul_remove_edge (ul_init False [1::nat, 2]) 1 2 = (Inl EdgeNotFound, ul_init False [1, 2]) \<and>
   am_reachable (am_init False [1::nat, 2] :: (nat, int) am_graph) \<and>
   fst (am_has_edge (am_init False [1::nat, 2] :: (nat, int) am_graph) 1 2) = Inr False \<and>
   am_remove_edge (am_init False [1::nat, 2] :: (nat, int) am_graph) 1 2
     = (Inr (), am_init False [1, 2])"
proof -
  have g: "wl_reachable (wl_init False [1::nat, 2] :: (nat, int) wl_graph)"
    by (rule wl_reachable.wl_init)
  have gv: "1 \<in> wl_vertices (wl_init False [1::nat, 2] :: (nat, int) wl_graph)"
    "2 \<in> wl_vertices (wl_init False [1::nat, 2] :: (nat, int) wl_graph)"
    by (simp_all add: wl_init_def)
  have ge: "fst (wl_has_edge (wl_init False [1::nat, 2] :: (nat, int) wl_graph) 1 2) = Inr False"
    by (simp add: wl_defs container_defs)
  have h: "ul_reachable (ul_init False [1::nat, 2])"
    by (rule ul_reachable.ul_init)
  have hv: "1 \<in> ul_vertices (ul_init False [1::nat, 2])" "2 \<in> ul_vertices (ul_init False [1::nat, 2])"
    by (simp_all add: ul_init_def)
  have he: "fst (ul_has_edge (ul_init False [1::nat, 2]) 1 2) = Inr False"
    by (simp add: ul_defs container_defs)
  have m: "am_reachable (am_init False [1::nat, 2] :: (nat, int) am_graph)"
    by (rule am_reachable.am_init) simp
  have mv: "1 \<in> set (am_vertices (am_init False [1::nat, 2] :: (nat, int) am_graph))"
    "2 \<in> set (am_vertices (am_init False [1::nat, 2] :: (nat, int) am_graph))"
    by (simp_all add: am_init_def)
  have me: "fst (am_has_edge (am_init False [1::nat, 2] :: (nat, int) am_graph) 1 2) = Inr False"
    by (simp add: am_defs container_defs upt_rec)
  from g gv ge h hv he m mv me
    remove_missing_edge[of "wl_init False [1::nat, 2] :: (nat, int) wl_graph" 1 2
      "ul_init False [1::nat, 2]" 1 2 "am_init False [1::nat, 2] :: (nat, int) am_graph" 1 2]
  show ?thesis by blast
qed

theorem matrix_remove_missing_edge_counterexample:
  "fst (am_has_vertex (am_init True [1::nat, 2] :: (nat, int) am_graph) 1) = Inr True \<and>
   fst (am_has_vertex (am_init True [1::nat, 2] :: (nat, int) am_graph) 2) = Inr True \<and>
   fst (am_has_edge (am_init True [1::nat, 2] :: (nat, int) am_graph) 1 2) = Inr False \<and>
   fst (am_remove_edge (am_init True [1::nat, 2] :: (nat, int) am_graph) 1 2) = Inr ()"
  by (simp add: am_defs container_defs upt_rec)

text \<open>
  C5. In the matrix backend a cell is non-empty exactly when the weight store has its
  key, also after \<^verbatim>\<open>remove_vertex\<close> has shifted the indices of the vertices behind
  the removed one. \<^verbatim>\<open>remove_vertex\<close> does not get there: on the undirected graph over
  \<open>{1, 2, 3}\<close> with the edge \<open>(2, 3)\<close>, \<^verbatim>\<open>remove_vertex(1)\<close> erases row 0 and then
  runs its column loop over three rows of a matrix that has two.
\<close>

theorem matrix_remove_vertex_out_of_range:
  "fst (am_set_edge_weight (am_init False [1::nat, 2, 3]) 2 3 (5::int)) = Inr () \<and>
   fst (am_remove_vertex (snd (am_set_edge_weight (am_init False [1::nat, 2, 3]) 2 3 (5::int))) 1)
     = Inl OutOfRange"
  by (simp add: am_defs container_defs Let_def upt_rec)

text \<open>
  C6. \<^verbatim>\<open>add_vertex\<close> on a new vertex leaves the matrix square of dimension \<open>|V|\<close>.
  It does not: the new row gets the old number of cells. On the graph with the single
  vertex 1, \<^verbatim>\<open>add_vertex(2)\<close> leaves the rows \<open>[None, None]\<close> and \<open>[None]\<close>, and
  \<^verbatim>\<open>has_edge(2, 2)\<close> reads outside the second row.
\<close>

theorem matrix_add_vertex_short_row:
  "fst (am_add_vertex (am_init True [1::nat] :: (nat, int) am_graph) 2) = Inr () \<and>
   am_vertices (snd (am_add_vertex (am_init True [1::nat] :: (nat, int) am_graph) 2)) = [1, 2] \<and>
   am_adjacency_matrix (snd (am_add_vertex (am_init True [1::nat] :: (nat, int) am_graph) 2))
     = [[None, None], [None]] \<and>
   fst (am_has_edge (snd (am_add_vertex (am_init True [1::nat] :: (nat, int) am_graph) 2)) 2 2)
     = Inl OutOfRange"
  by (simp add: am_defs container_defs Let_def)

text \<open>
  C7. In an undirected graph \<^verbatim>\<open>get_children(v)\<close> and \<^verbatim>\<open>get_parents(v)\<close> are the same
  set, also for a vertex with a self-loop. In the weighted adjacency list they differ:
  after \<^verbatim>\<open>set_edge_weight(1, 1, 5)\<close> on the undirected graph with the single vertex 1,
  \<^verbatim>\<open>get_children(1)\<close> is \<open>{1}\<close> and \<^verbatim>\<open>get_parents(1)\<close> is empty.
\<close>

theorem weighted_self_loop_children_parents_differ:
  "fst (wl_get_children (snd (wl_set_edge_weight (wl_init False [1::nat]) 1 1 (5::int))) 1)
     = Inr {1} \<and>
   fst (wl_get_parents (snd (wl_set_edge_weight (wl_init False [1::nat]) 1 1 (5::int))) 1)
     = Inr {}"
  by (auto simp add: wl_defs container_defs Let_def)

text \<open>
  C8. \<^verbatim>\<open>add_vertices(S)\<close> is all or nothing in every backend: when some vertex of
  \<open>S\<close> is already in the graph the call fails with DuplicateVertex and the graph is as
  it was before the call; when the call returns, every vertex of \<open>S\<close> is in the graph.
  The call returns for every batch without a vertex of the graph; in the matrix backend
  with one exception, the empty batch added to a graph without vertices.
\<close>

theorem add_vertices_all_or_nothing:
  "(list_ex (\<lambda>v. fst (wl_has_vertex g v) = Inr True) vs \<longrightarrow>
      wl_add_vertices g vs = (Inl DuplicateVertex, g)) \<and>
   (\<not> list_ex (\<lambda>v. fst (wl_has_vertex g v) = Inr True) vs \<longrightarrow>
      fst (wl_add_vertices g vs) = Inr () \<and>
      list_all (\<lambda>v. fst (wl_has_vertex (snd (wl_add_vertices g vs)) v) = Inr True) vs) \<and>
   (list_ex (\<lambda>v. fst (ul_has_vertex h v) = Inr True) ps \<longrightarrow>
      ul_add_vertices h ps = (Inl DuplicateVertex, h)) \<and>
   (\<not> list_ex (\<lambda>v. fst (ul_has_vertex h v) = Inr True) ps \<longrightarrow>
      fst (ul_add_vertices h ps) = Inr () \<and>
      list_all (\<lambda>v. fst (ul_has_vertex (snd (ul_add_vertices h ps)) v) = Inr True) ps) \<and>
   (list_ex (\<lambda>v. fst (am_has_vertex m v) = Inr True) xs \<longrightarrow>
      am_add_vertices m xs = (Inl DuplicateVertex, m)) \<and>
   (fst (am_add_vertices m xs) = Inl DuplicateVertex \<longrightarrow>
      list_ex (\<lambda>v. fst (am_has_vertex m v) = Inr True) xs \<and> snd (am_add_vertices m xs) = m) \<and>
   (fst (am_add_vertices m xs) = Inr () \<longrightarrow>
      list_all (\<lambda>v. fst (am_has_vertex (snd (am_add_vertices m xs)) v) = Inr True) xs) \<and>
   (\<not> list_ex (\<lambda>v. fst (am_has_vertex m v) = Inr True) xs \<and>
    \<not> (am_vertices m = [] \<and> xs = []) \<longrightarrow>
      fst (am_add_vertices m xs) = Inr ())"
  using wl_add_vertices_cases[of g vs] ul_add_vertices_cases[of h ps] am_add_vertices_cases[of m xs]
  by (metis snd_conv)

theorem add_vertices_all_or_nothing_witness:
  "list_ex (\<lambda>v. fst (wl_has_vertex (wl_init True [1::nat, 2] :: (nat, int) wl_graph) v) = Inr True)
     [3, 1] \<and>
   wl_add_vertices (wl_init True [1::nat, 2] :: (nat, int) wl_graph) [3, 1]
     = (Inl DuplicateVertex, wl_init True [1, 2]) \<and>
   \<not> list_ex (\<lambda>v. fst (wl_has_vertex (wl_init True [1::nat, 2] :: (nat, int) wl_graph) v) = Inr True)
     [3, 4] \<and>
   list_all (\<lambda>v. fst (wl_has_vertex
       (snd (wl_add_vertices (wl_init True [1::nat, 2] :: (nat, int) wl_graph) [3, 4])) v) = Inr True)
     [3, 4] \<and>
   list_ex (\<lambda>v. fst (ul_has_vertex (ul_init True [1::nat, 2]) v) = Inr True) [3, 1] \<and>
   ul_add_vertices (ul_init True [1::nat, 2]) [3, 1] = (Inl DuplicateVertex, ul_init True [1, 2]) \<and>
   \<not> list_ex (\<lambda>v. fst (ul_has_vertex (ul_init True [1::nat, 2]) v) = Inr True) [3, 4] \<and>
   list_all (\<lambda>v. fst (ul_has_vertex (snd (ul_add_vertices (ul_init True [1::nat, 2]) [3, 4])) v)
       = Inr True) [3, 4] \<and>
   list_ex (\<lambda>v. fst (am_has_vertex (am_init True [1::nat, 2] :: (nat, int) am_graph) v) = Inr True)
     [3, 1] \<and>
   am_add_vertices (am_init True [1::nat, 2] :: (nat, int) am_graph) [3, 1]
     = (Inl DuplicateVertex, am_init True [1, 2]) \<and>
   \<not> list_ex (\<lambda>v. fst (am_has_vertex (am_init True [1::nat, 2] :: (nat, int) am_graph) v) = Inr True)
     [3, 4] \<and>
   \<not> (am_vertices (am_init True [1::nat, 2] :: (nat, int) am_graph) = [] \<and> [3::nat, 4] = []) \<and>
   fst (am_add_vertices (am_init True [1::nat, 2] :: (nat, int) am_graph) [3, 4]) = Inr () \<and>
   list_all (\<lambda>v. fst (am_has_vertex
       (snd (am_add_vertices (am_init True [1::nat, 2] :: (nat, int) am_graph) [3, 4])) v) = Inr True)
     [3, 4]"
proof -
  have g: "list_ex (\<lambda>v. fst (wl_has_vertex (wl_init True [1::nat, 2] :: (nat, int) wl_graph) v)
        = Inr True) [3, 1]"
    "\<not> list_ex (\<lambda>v. fst (wl_has_vertex (wl_init True [1::nat, 2] :: (nat, int) wl_graph) v)
        = Inr True) [3, 4]"
    by (simp_all add: wl_has_vertex_def wl_init_def)
  have h: "list_ex (\<lambda>v. fst (ul_has_vertex (ul_init True [1::nat, 2]) v) = Inr True) [3, 1]"
    "\<not> list_ex (\<lambda>v. fst (ul_has_vertex (ul_init True [1::nat, 2]) v) = Inr True) [3, 4]"
    by (simp_all add: ul_has_vertex_def ul_init_def)
  have m: "list_ex (\<lambda>v. fst (am_has_vertex (am_init True [1::nat, 2] :: (nat, int) am_graph) v)
        = Inr True) [3, 1]"
    "\<not> list_ex (\<lambda>v. fst (am_has_vertex (am_init True [1::nat, 2] :: (nat, int) am_graph) v)
        = Inr True) [3, 4]"
    "\<not> (am_vertices (am_init True [1::nat, 2] :: (nat, int) am_graph) = [] \<and> [3::nat, 4] = [])"
    by (simp_all add: am_has_vertex_def am_init_def)
  from g h m
    add_vertices_all_or_nothing[of "wl_init True [1::nat, 2] :: (nat, int) wl_graph" "[3, 1]"
      "ul_init True [1::nat, 2]" "[3, 1]" "am_init True [1::nat, 2] :: (nat, int) am_graph" "[3, 1]"]
    add_vertices_all_or_nothing[of "wl_init True [1::nat, 2] :: (nat, int) wl_graph" "[3, 4]"
      "ul_init True [1::nat, 2]" "[3, 4]" "am_init True [1::nat, 2] :: (nat, int) am_graph" "[3, 4]"]
  show ?thesis by blast
qed




text \<open>
  C10 (amended). In the unweighted adjacency list, \<^verbatim>\<open>get_edge_weight(u, v)\<close> with at
  least one endpoint that is no vertex of the graph fails with UnknownVertex ("Vertex not
  in graph.") and leaves the graph as it was; it does not return false.
\<close>

theorem unweighted_get_edge_weight_unknown_vertex:
  "u \<notin> ul_vertices g \<or> v \<notin> ul_vertices g \<Longrightarrow>
   ul_get_edge_weight g u v = (Inl UnknownVertex, g)"
  by (rule ul_get_edge_weight_unknown) simp

theorem unweighted_get_edge_weight_unknown_vertex_witness:
  "2 \<notin> ul_vertices (ul_init True [1::nat]) \<and>
   ul_get_edge_weight (ul_init True [1::nat]) 2 1 = (Inl UnknownVertex, ul_init True [1])"
proof -
  have h: "2 \<notin> ul_vertices (ul_init True [1::nat])"
    by (simp add: ul_init_def)
  then have "2 \<notin> ul_vertices (ul_init True [1::nat]) \<or> 1 \<notin> ul_vertices (ul_init True [1::nat])"
    by simp
  from unweighted_get_edge_weight_unknown_vertex[OF this] h show ?thesis by simp
qed

theorem unweighted_get_edge_weight_counterexample:
  "fst (ul_has_vertex (ul_init True [1::nat]) 2) = Inr False \<and>
   fst (ul_get_edge_weight (ul_init True [1::nat]) 2 1) = Inl UnknownVertex \<and>
   fst (ul_get_edge_weight (ul_init True [1::nat]) 2 1) \<noteq> Inr False"
  by (simp add: ul_defs container_defs)

end
